theory Spec2Isabelle
  imports Complex_Main "HOL-Library.Word"
begin

unbundle bit_operations_syntax

section \<open>Numbers and typed arrays\<close>

text \<open>
  The analysis code computes with JavaScript numbers and \<^verbatim>\<open>Float32Array\<close>s. Numbers are
  modelled as \<^typ>\<open>real\<close>: the arithmetic is exact, so rounding, infinities and NaN are
  not part of the model. Array lengths and loop counters are \<^typ>\<open>nat\<close> where the source
  cannot make them negative and \<^typ>\<open>int\<close> where it can (\<^verbatim>\<open>Math.floor\<close> of a time).

  A read outside a typed array yields \<^verbatim>\<open>undefined\<close> in the source, which turns every sum
  it enters into NaN. Such a value has no counterpart in \<^typ>\<open>real\<close>; where the source can
  produce it the model returns \<open>None\<close>.
\<close>

definition f32_get :: "real list \<Rightarrow> int \<Rightarrow> real option" where
  "f32_get a i = (if 0 \<le> i \<and> i < int (length a) then Some (a ! nat i) else None)"

section \<open>EnergyAnalyzer\<close>

definition OUTPUT_SAMPLE_RATE :: real where
  "OUTPUT_SAMPLE_RATE = 10"

subsection \<open>analyzeEnergy\<close>

text \<open>
  The values of the energy envelope depend on the rounding of the source's arithmetic,
  so in this function the rounding is part of the model, as two parameters: \<open>rnd\<close> rounds
  the result of an operation on JavaScript numbers to a double, \<open>fround\<close> rounds a number
  to single precision when it is stored in a \<^verbatim>\<open>Float32Array\<close>. What is used of either is
  what IEEE rounding to nearest gives on finite values: it is monotone and leaves 0 and 1
  unchanged. The samples are finite numbers and no operation overflows. The sample
  indices \<open>startSample\<close> and \<open>endSample\<close> and the counts are integers that the source
  computes exactly.
\<close>

definition rounding :: "(real \<Rightarrow> real) \<Rightarrow> bool" where
  "rounding r \<longleftrightarrow> mono r \<and> r 0 = 0 \<and> r 1 = 1"

text \<open>
  Errors of the analysis code: the \<^verbatim>\<open>RangeError\<close> that a typed-array constructor raises for
  a length that is negative, infinite or larger than the engine allows, and the error that
  \<^verbatim>\<open>computeMagnitudeSpectrum\<close> throws, which carries the offending frame length.
\<close>

datatype error = RangeError | FFTLengthError nat

text \<open>
  \<^verbatim>\<open>calculateRMS\<close> reads \<^verbatim>\<open>samples[i] ?? 0\<close>: a read outside the array counts as 0. The
  loop \<^verbatim>\<open>sumSquares += sample * sample\<close> rounds the product and the sum.
\<close>

definition calculateRMS :: "(real \<Rightarrow> real) \<Rightarrow> real list \<Rightarrow> int \<Rightarrow> int \<Rightarrow> real" where
  "calculateRMS rnd samples start endIdx =
     (let count = endIdx - start
      in if count \<le> 0 then 0
         else (let sumSquares =
                     fold (\<lambda>i sumSquares.
                             let sample = (case f32_get samples i of None \<Rightarrow> 0 | Some v \<Rightarrow> v)
                             in rnd (sumSquares + rnd (sample * sample)))
                       [start..endIdx - 1] 0
               in rnd (sqrt (rnd (sumSquares / real_of_int count)))))"

text \<open>
  \<^verbatim>\<open>smoothEnergyCurve\<close>: the inner loop runs over \<open>max 0 (i - halfWindow) \<le> j <
  min length (i + halfWindow + 1)\<close>; the subtraction on \<^typ>\<open>nat\<close> stops at 0 as the
  \<^verbatim>\<open>Math.max\<close> does, and \<open>count\<close> is the number of these indices. The quotient is stored
  in a \<^verbatim>\<open>Float32Array\<close>.
\<close>

definition smoothEnergyCurve ::
  "(real \<Rightarrow> real) \<Rightarrow> (real \<Rightarrow> real) \<Rightarrow> real list \<Rightarrow> nat \<Rightarrow> real list" where
  "smoothEnergyCurve fround rnd curve windowSize =
     (let halfWindow = windowSize div 2
      in map (\<lambda>i. let js = [i - halfWindow..<min (length curve) (i + halfWindow + 1)];
                      sum = fold (\<lambda>j sum. rnd (sum + curve ! j)) js 0;
                      count = length js
                  in fround (rnd (sum / real count)))
           [0..<length curve])"

text \<open>The loop that finds the maximum of the smoothed curve, starting from 0.\<close>

definition max_energy :: "real list \<Rightarrow> real" where
  "max_energy smoothed = fold (\<lambda>s maxEnergy. if s > maxEnergy then s else maxEnergy) smoothed 0"

text \<open>
  \<^verbatim>\<open>analyzeEnergy\<close>. The constructor \<^verbatim>\<open>new Float32Array(outputLength)\<close> raises for a
  negative length, for a length above the engine's largest typed-array length, which is
  the parameter \<open>maxLength\<close>, and for the infinite length that a zero sample rate gives with
  a nonempty waveform. The three arrays \<open>rawEnergy\<close>, \<open>smoothed\<close> and \<open>normalized\<close> are
  \<^verbatim>\<open>Float32Array\<close>s.
\<close>

definition analyzeEnergy ::
  "(real \<Rightarrow> real) \<Rightarrow> (real \<Rightarrow> real) \<Rightarrow> nat \<Rightarrow> real list \<Rightarrow> real \<Rightarrow> error + real list" where
  "analyzeEnergy fround rnd maxLength audioData sampleRate =
     (let audioDuration = rnd (real (length audioData) / sampleRate);
          outputLength = \<lceil>rnd (audioDuration * OUTPUT_SAMPLE_RATE)\<rceil>
      in if outputLength < 0 \<or> int maxLength < outputLength \<or> (sampleRate = 0 \<and> audioData \<noteq> [])
         then Inl RangeError
         else (let windowSamples = \<lfloor>rnd (sampleRate / OUTPUT_SAMPLE_RATE)\<rfloor>;
                   rawEnergy =
                     map (\<lambda>i. let startSample = int i * windowSamples;
                                  endSample = min (startSample + windowSamples)
                                                (int (length audioData))
                              in fround (calculateRMS rnd audioData startSample endSample))
                       [0..<nat outputLength];
                   smoothed = smoothEnergyCurve fround rnd rawEnergy 5;
                   maxEnergy = max_energy smoothed;
                   normalized =
                     (if maxEnergy > 0 then map (\<lambda>s. fround (rnd (s / maxEnergy))) smoothed
                      else replicate (length smoothed) 0)
               in Inr normalized))"

subsection \<open>getAverageEnergy\<close>

text \<open>
  The loop \<^verbatim>\<open>for (i = startIndex; i < endIndex; i++) sum += energyCurve[i]\<close>, run over the
  list of its indices. The accumulator is \<open>None\<close> once a read has left the array.
\<close>

fun energy_sum :: "real list \<Rightarrow> int list \<Rightarrow> real option \<Rightarrow> real option" where
  "energy_sum energyCurve [] acc = acc"
| "energy_sum energyCurve (i # rest) acc =
     energy_sum energyCurve rest
       (case acc of
          None \<Rightarrow> None
        | Some s \<Rightarrow> (case f32_get energyCurve i of None \<Rightarrow> None | Some v \<Rightarrow> Some (s + v)))"

definition getAverageEnergy :: "real list \<Rightarrow> real \<Rightarrow> real \<Rightarrow> real option" where
  "getAverageEnergy energyCurve startTime endTime =
     (let startIndex = \<lfloor>startTime * OUTPUT_SAMPLE_RATE\<rfloor>;
          endIndex = min \<lceil>endTime * OUTPUT_SAMPLE_RATE\<rceil> (int (length energyCurve))
      in if startIndex \<ge> endIndex then Some 0
         else map_option (\<lambda>s. s / real_of_int (endIndex - startIndex))
                (energy_sum energyCurve [startIndex..endIndex - 1] (Some 0)))"

subsection \<open>detectEnergyChanges\<close>

record EnergyChange =
  time :: real
  delta :: real

definition lookWindow :: nat where
  "lookWindow = 10"

text \<open>
  One pass of the outer loop of \<^verbatim>\<open>detectEnergyChanges\<close> for every index of the list, in
  order; \<open>changes\<close> is the array built so far. All reads are inside the array, because
  \<open>lookWindow \<le> i\<close> and \<open>i + lookWindow < length energyCurve\<close>.
\<close>

fun detect_loop :: "real list \<Rightarrow> real \<Rightarrow> nat list \<Rightarrow> EnergyChange list \<Rightarrow> EnergyChange list" where
  "detect_loop energyCurve threshold [] changes = changes"
| "detect_loop energyCurve threshold (i # rest) changes =
     (let beforeSum = (\<Sum>j \<leftarrow> [0..<lookWindow]. energyCurve ! (i - lookWindow + j));
          afterSum = (\<Sum>j \<leftarrow> [0..<lookWindow]. energyCurve ! (i + j));
          beforeAvg = beforeSum / real lookWindow;
          afterAvg = afterSum / real lookWindow;
          d = afterAvg - beforeAvg
      in if \<bar>d\<bar> \<ge> threshold
         then (let t = real i / OUTPUT_SAMPLE_RATE
               in if changes = [] \<or> t - time (last changes) \<ge> 1
                  then detect_loop energyCurve threshold rest (changes @ [\<lparr>time = t, delta = d\<rparr>])
                  else detect_loop energyCurve threshold rest changes)
         else detect_loop energyCurve threshold rest changes)"

text \<open>
  The loop runs for \<open>lookWindow \<le> i < length - lookWindow\<close>; when the array has fewer than
  \<open>lookWindow\<close> elements the bound is negative in the source and the loop does not run, which
  is what the truncated subtraction on \<^typ>\<open>nat\<close> gives as well.
\<close>

definition detectEnergyChanges :: "real list \<Rightarrow> real \<Rightarrow> EnergyChange list" where
  "detectEnergyChanges energyCurve threshold =
     detect_loop energyCurve threshold [lookWindow..<length energyCurve - lookWindow] []"

section \<open>DrumAnalyzer\<close>

record DrumPattern =
  kickTimes :: "real list"
  snareTimes :: "real list"
  hihatTimes :: "real list"
  patternLength :: real

definition FFT_SIZE :: nat where
  "FFT_SIZE = 2048"

definition HOP_SIZE :: nat where
  "HOP_SIZE = 512"

text \<open>The tables \<^verbatim>\<open>FREQUENCY_BANDS\<close>, \<^verbatim>\<open>ONSET_THRESHOLDS\<close> and \<^verbatim>\<open>MIN_HIT_INTERVAL\<close>.\<close>

definition FREQUENCY_BANDS_kick :: "real \<times> real" where
  "FREQUENCY_BANDS_kick = (20, 200)"

definition FREQUENCY_BANDS_snare :: "real \<times> real" where
  "FREQUENCY_BANDS_snare = (200, 2000)"

definition FREQUENCY_BANDS_hihat :: "real \<times> real" where
  "FREQUENCY_BANDS_hihat = (5000, 15000)"

definition ONSET_THRESHOLDS_kick :: real where
  "ONSET_THRESHOLDS_kick = 18 / 10"

definition ONSET_THRESHOLDS_snare :: real where
  "ONSET_THRESHOLDS_snare = 2"

definition ONSET_THRESHOLDS_hihat :: real where
  "ONSET_THRESHOLDS_hihat = 16 / 10"

definition MIN_HIT_INTERVAL_kick :: real where
  "MIN_HIT_INTERVAL_kick = 15 / 100"

definition MIN_HIT_INTERVAL_snare :: real where
  "MIN_HIT_INTERVAL_snare = 12 / 100"

definition MIN_HIT_INTERVAL_hihat :: real where
  "MIN_HIT_INTERVAL_hihat = 5 / 100"

subsection \<open>Windowing\<close>

definition createHammingWindow :: "nat \<Rightarrow> real list" where
  "createHammingWindow n =
     map (\<lambda>i. 54 / 100 - 46 / 100 * cos ((2 * pi * real i) / (real n - 1))) [0..<n]"

text \<open>
  \<^verbatim>\<open>applyWindow\<close> reads \<open>window[i]\<close> for every index of \<open>samples\<close>. Its one caller passes a
  window of \<open>FFT_SIZE\<close> values and a frame of at most that length, so these reads are inside
  the window.
\<close>

definition applyWindow :: "real list \<Rightarrow> real list \<Rightarrow> real list" where
  "applyWindow samples window = map (\<lambda>i. samples ! i * window ! i) [0..<length samples]"

subsection \<open>The magnitude spectrum\<close>

text \<open>
  \<^verbatim>\<open>reverseBits\<close>: \<open>bits\<close> rounds of \<^verbatim>\<open>result = (result << 1) | (x & 1); x >>= 1\<close>. The
  shifted \<open>result\<close> is even, so the bitwise or adds the low bit of \<open>x\<close>. The arithmetic is on
  \<^typ>\<open>nat\<close>: for the frame lengths below \<open>2 ^ 31\<close> the source's 32-bit operations do not
  overflow.
\<close>

fun reverseBits_loop :: "nat \<Rightarrow> nat \<Rightarrow> nat \<Rightarrow> nat" where
  "reverseBits_loop 0 x result = result"
| "reverseBits_loop (Suc n) x result = reverseBits_loop n (x div 2) (result * 2 + x mod 2)"

definition reverseBits :: "nat \<Rightarrow> nat \<Rightarrow> nat" where
  "reverseBits x bits = reverseBits_loop bits x 0"

text \<open>
  \<^verbatim>\<open>Math.log2(N)\<close> for the lengths that pass the power-of-two test: the exponent of \<open>N\<close>.
  For \<open>N = 0\<close> the source gets \<open>-Infinity\<close> and runs no loop that uses it.
\<close>

fun log2 :: "nat \<Rightarrow> nat" where
  "log2 n = (if n \<le> 1 then 0 else Suc (log2 (n div 2)))"

declare log2.simps [simp del]

definition swap :: "real list \<Rightarrow> nat \<Rightarrow> nat \<Rightarrow> real list" where
  "swap a i j = a[i := a ! j, j := a ! i]"

text \<open>The state of the in-place transform: the arrays \<open>real\<close> and \<open>imag\<close>.\<close>

type_synonym complex_arrays = "real list \<times> real list"

definition bit_reversal :: "nat \<Rightarrow> nat \<Rightarrow> complex_arrays \<Rightarrow> complex_arrays" where
  "bit_reversal N bits =
     fold (\<lambda>i (re, im).
             let reversed = reverseBits i bits
             in if reversed > i then (swap re i reversed, swap im i reversed) else (re, im))
       [0..<N]"

text \<open>One butterfly: the body of the innermost loop.\<close>

definition butterfly :: "real \<Rightarrow> nat \<Rightarrow> nat \<Rightarrow> nat \<Rightarrow> complex_arrays \<Rightarrow> complex_arrays" where
  "butterfly angleStep halfSize i j =
     (\<lambda>(re, im).
        let angle = angleStep * real j;
            c = cos angle;
            s = sin angle;
            evenIdx = i + j;
            oddIdx = i + j + halfSize;
            tReal = re ! oddIdx * c - im ! oddIdx * s;
            tImag = re ! oddIdx * s + im ! oddIdx * c
        in (re[oddIdx := re ! evenIdx - tReal, evenIdx := re ! evenIdx + tReal],
            im[oddIdx := im ! evenIdx - tImag, evenIdx := im ! evenIdx + tImag]))"

text \<open>
  One pass of the transform for a block size \<open>sz\<close>: the loop
  \<^verbatim>\<open>for (i = 0; i < N; i += size)\<close> visits the multiples of \<open>sz\<close> below \<open>N\<close>.
\<close>

definition fft_pass :: "nat \<Rightarrow> nat \<Rightarrow> complex_arrays \<Rightarrow> complex_arrays" where
  "fft_pass N sz =
     (let halfSize = sz div 2;
          angleStep = - 2 * pi / real sz
      in fold (\<lambda>i. fold (butterfly angleStep halfSize i) [0..<halfSize])
           (filter (\<lambda>i. i mod sz = 0) [0..<N]))"

text \<open>The loop \<^verbatim>\<open>for (size = 2; size <= N; size *= 2)\<close>; it starts at 2, so \<open>sz\<close> is positive.\<close>

function fft_passes :: "nat \<Rightarrow> nat \<Rightarrow> complex_arrays \<Rightarrow> complex_arrays" where
  "fft_passes N sz arrays =
     (if 0 < sz \<and> sz \<le> N then fft_passes N (sz * 2) (fft_pass N sz arrays) else arrays)"
  by pat_completeness auto
termination
  by (relation "measure (\<lambda>(N, sz, arrays). N + 1 - sz)") auto

declare fft_passes.simps [simp del]

text \<open>
  \<^verbatim>\<open>computeMagnitudeSpectrum\<close>. The test \<^verbatim>\<open>(N & (N - 1)) !== 0\<close> is a bitwise operation of
  JavaScript, on the operands reduced to 32 bits.
\<close>

definition computeMagnitudeSpectrum :: "real list \<Rightarrow> error + real list" where
  "computeMagnitudeSpectrum samples =
     (let N = length samples
      in if (word_of_nat N AND (word_of_nat N - 1) :: 32 word) \<noteq> 0 then Inl (FFTLengthError N)
         else (let bits = log2 N;
                   (re, im) = fft_passes N 2 (bit_reversal N bits (samples, replicate N 0))
               in Inr (map (\<lambda>k. sqrt (re ! k * re ! k + im ! k * im ! k)) [0..<N div 2])))"

subsection \<open>Band energy\<close>

text \<open>
  The band energies are stored in \<^verbatim>\<open>Float32Array\<close>s and can be NaN; an energy is a
  \<^typ>\<open>real option\<close>, with \<open>None\<close> for NaN.

  The loop of \<^verbatim>\<open>getBandEnergy\<close> over the bins \<open>lowBin .. highBin\<close>; a read outside the
  spectrum makes the sum NaN.
\<close>

fun band_sum :: "real list \<Rightarrow> int list \<Rightarrow> real option \<Rightarrow> real option" where
  "band_sum spectrum [] acc = acc"
| "band_sum spectrum (i # rest) acc =
     band_sum spectrum rest
       (case acc of
          None \<Rightarrow> None
        | Some e \<Rightarrow> (case f32_get spectrum i of None \<Rightarrow> None | Some v \<Rightarrow> Some (e + v * v)))"

text \<open>
  \<^verbatim>\<open>getBandEnergy\<close>. Three divisions of the source can meet a zero divisor, and they are
  branches here. An empty spectrum has an infinite bin resolution, an empty bin range and
  the quotient \<open>0 / 0\<close>. A zero sample rate (with a positive \<open>lowHz\<close>, as all three bands
  have) puts \<open>lowBin\<close> at infinity: no bin is visited and the result is a zero. An empty
  bin range with \<open>highBin - lowBin + 1 = 0\<close> again gives \<open>0 / 0\<close>; with a negative count the
  quotient is a zero, and so is its root.
\<close>

definition getBandEnergy :: "real list \<Rightarrow> real \<Rightarrow> real \<Rightarrow> real \<Rightarrow> real option" where
  "getBandEnergy spectrum sampleRate lowHz highHz =
     (if spectrum = [] then None
      else if sampleRate = 0 then Some 0
      else (let binResolution = sampleRate / real (length spectrum * 2);
                lowBin = \<lfloor>lowHz / binResolution\<rfloor>;
                highBin = min \<lceil>highHz / binResolution\<rceil> (int (length spectrum) - 1)
            in case band_sum spectrum [lowBin..highBin] (Some 0) of
                 None \<Rightarrow> None
               | Some e \<Rightarrow>
                   if highBin - lowBin + 1 = 0 then None
                   else Some (sqrt (e / real_of_int (highBin - lowBin + 1)))))"

subsection \<open>detectOnsets\<close>

text \<open>Sums and comparisons with NaN: a sum with a NaN is NaN, a comparison with a NaN is false.\<close>

definition nan_sum :: "real option list \<Rightarrow> real option" where
  "nan_sum xs =
     fold (\<lambda>x acc. case acc of None \<Rightarrow> None
                    | Some a \<Rightarrow> (case x of None \<Rightarrow> None | Some v \<Rightarrow> Some (a + v))) xs (Some 0)"

definition nan_greater :: "real option \<Rightarrow> real option \<Rightarrow> bool" where
  "nan_greater a b = (case a of None \<Rightarrow> False
                      | Some x \<Rightarrow> (case b of None \<Rightarrow> False | Some y \<Rightarrow> x > y))"

text \<open>The local constant \<^verbatim>\<open>windowSize\<close> of \<^verbatim>\<open>detectOnsets\<close>.\<close>

definition onsetWindow :: nat where
  "onsetWindow = 10"

text \<open>
  The loop of \<^verbatim>\<open>detectOnsets\<close>, over the list of its indices
  \<open>onsetWindow \<le> i < length - 1\<close>; all reads of the band energy are inside the array. The
  caller passes frame times of the same length, so \<open>frameTimes[i]\<close> is inside as well.
\<close>

fun onset_loop ::
  "real option list \<Rightarrow> real list \<Rightarrow> real \<Rightarrow> real \<Rightarrow> nat list \<Rightarrow> real list \<Rightarrow> real list" where
  "onset_loop bandEnergy frameTimes threshold minInterval [] onsets = onsets"
| "onset_loop bandEnergy frameTimes threshold minInterval (i # rest) onsets =
     (let localMean = map_option (\<lambda>s. s / real onsetWindow)
                        (nan_sum (map (\<lambda>j. bandEnergy ! j) [i - onsetWindow..<i]))
      in if nan_greater (bandEnergy ! i) (map_option (\<lambda>m. threshold * m) localMean) \<and>
            nan_greater (bandEnergy ! i) (bandEnergy ! (i - 1))
         then (let t = frameTimes ! i
               in if onsets = [] \<or> t - last onsets \<ge> minInterval
                  then onset_loop bandEnergy frameTimes threshold minInterval rest (onsets @ [t])
                  else onset_loop bandEnergy frameTimes threshold minInterval rest onsets)
         else onset_loop bandEnergy frameTimes threshold minInterval rest onsets)"

definition detectOnsets :: "real option list \<Rightarrow> real list \<Rightarrow> real \<Rightarrow> real \<Rightarrow> real list" where
  "detectOnsets bandEnergy frameTimes threshold minInterval =
     onset_loop bandEnergy frameTimes threshold minInterval [onsetWindow..<length bandEnergy - 1] []"

subsection \<open>analyzeDrums\<close>

text \<open>\<^verbatim>\<open>audioData.slice(start, end)\<close> for \<open>0 \<le> start \<le> end\<close>; the end is clamped to the length.\<close>

definition slice :: "real list \<Rightarrow> nat \<Rightarrow> nat \<Rightarrow> real list" where
  "slice a start stop = take (stop - start) (drop start a)"

text \<open>The energy arrays and the frame times, as they are filled frame by frame.\<close>

record FrameArrays =
  kickEnergy :: "real option list"
  snareEnergy :: "real option list"
  hihatEnergy :: "real option list"
  frameTimes :: "real list"

text \<open>
  The loop over the frames. The error of \<^verbatim>\<open>computeMagnitudeSpectrum\<close> leaves the loop and
  the function. At sample rate 0 the frame times of the source are infinite; all band
  energies are 0 then, no onset is found and no frame time is read.
\<close>

fun frames_loop ::
  "real list \<Rightarrow> real \<Rightarrow> real list \<Rightarrow> nat list \<Rightarrow> FrameArrays \<Rightarrow> error + FrameArrays" where
  "frames_loop audioData sampleRate window [] arrays = Inr arrays"
| "frames_loop audioData sampleRate window (frame # rest) arrays =
     (let startSample = frame * HOP_SIZE;
          endSample = startSample + FFT_SIZE;
          frameData = slice audioData startSample endSample;
          windowed = applyWindow frameData window
      in case computeMagnitudeSpectrum windowed of
           Inl e \<Rightarrow> Inl e
         | Inr spectrum \<Rightarrow>
             frames_loop audioData sampleRate window rest
               \<lparr>kickEnergy = kickEnergy arrays @
                  [getBandEnergy spectrum sampleRate
                     (fst FREQUENCY_BANDS_kick) (snd FREQUENCY_BANDS_kick)],
                snareEnergy = snareEnergy arrays @
                  [getBandEnergy spectrum sampleRate
                     (fst FREQUENCY_BANDS_snare) (snd FREQUENCY_BANDS_snare)],
                hihatEnergy = hihatEnergy arrays @
                  [getBandEnergy spectrum sampleRate
                     (fst FREQUENCY_BANDS_hihat) (snd FREQUENCY_BANDS_hihat)],
                frameTimes = frameTimes arrays @
                  [(real startSample + real FFT_SIZE / 2) / sampleRate]\<rparr>)"

definition analyzeDrums :: "real list \<Rightarrow> real \<Rightarrow> real list \<Rightarrow> error + DrumPattern" where
  "analyzeDrums audioData sampleRate beatTimes =
     (let numFrames = (int (length audioData) - int FFT_SIZE) div int HOP_SIZE
      in if numFrames \<le> 0
         then Inr \<lparr>kickTimes = [], snareTimes = [], hihatTimes = [], patternLength = 0\<rparr>
         else (case frames_loop audioData sampleRate (createHammingWindow FFT_SIZE)
                      [0..<nat numFrames]
                      \<lparr>kickEnergy = [], snareEnergy = [], hihatEnergy = [], frameTimes = []\<rparr> of
                 Inl e \<Rightarrow> Inl e
               | Inr arrays \<Rightarrow>
                   (let kicks = detectOnsets (kickEnergy arrays) (frameTimes arrays)
                                  ONSET_THRESHOLDS_kick MIN_HIT_INTERVAL_kick;
                        snares = detectOnsets (snareEnergy arrays) (frameTimes arrays)
                                   ONSET_THRESHOLDS_snare MIN_HIT_INTERVAL_snare;
                        hihats = detectOnsets (hihatEnergy arrays) (frameTimes arrays)
                                   ONSET_THRESHOLDS_hihat MIN_HIT_INTERVAL_hihat;
                        len = (if length beatTimes \<ge> 2
                               then (let beatInterval =
                                           (beatTimes ! (length beatTimes - 1) - beatTimes ! 0) /
                                           real (length beatTimes - 1)
                                     in beatInterval * 16)
                               else 0)
                    in Inr \<lparr>kickTimes = kicks, snareTimes = snares, hihatTimes = hihats,
                            patternLength = len\<rparr>)))"

text \<open>
  The mean inter-beat interval in the words of the specification: the mean of the
  differences of consecutive beat timestamps.
\<close>

definition mean_beat_interval :: "real list \<Rightarrow> real" where
  "mean_beat_interval beatTimes =
     (\<Sum>i \<leftarrow> [1..<length beatTimes]. beatTimes ! i - beatTimes ! (i - 1)) /
     real (length beatTimes - 1)"

section \<open>SectionAnalyzer\<close>

datatype SectionType = Intro | Verse | Chorus | Drop | Breakdown | Outro | Unknown

record MusicSection =
  type :: SectionType
  startTime :: real
  endTime :: real
  energy :: real

definition MIN_SECTION_DURATION :: real where
  "MIN_SECTION_DURATION = 4"

definition ENERGY_THRESHOLDS_HIGH :: real where
  "ENERGY_THRESHOLDS_HIGH = 7 / 10"

definition ENERGY_THRESHOLDS_MEDIUM :: real where
  "ENERGY_THRESHOLDS_MEDIUM = 4 / 10"

definition EDGE_SECTION_THRESHOLD :: real where
  "EDGE_SECTION_THRESHOLD = 15"

subsection \<open>classifySection\<close>

definition classifySection :: "real \<Rightarrow> real \<Rightarrow> real \<Rightarrow> real \<Rightarrow> real \<Rightarrow> SectionType" where
  "classifySection e start stop totalDuration energyChange =
     (if start < EDGE_SECTION_THRESHOLD \<and> e < ENERGY_THRESHOLDS_HIGH then Intro
      else if stop > totalDuration - EDGE_SECTION_THRESHOLD \<and> e < ENERGY_THRESHOLDS_HIGH then Outro
      else if e \<ge> ENERGY_THRESHOLDS_HIGH then (if energyChange > 25 / 100 then Drop else Chorus)
      else if e \<ge> ENERGY_THRESHOLDS_MEDIUM then Verse
      else if energyChange < - (2 / 10) then Breakdown
      else Unknown)"

subsection \<open>mergeSections\<close>

text \<open>
  The loop of \<^verbatim>\<open>mergeSections\<close> over the sections after the first: \<open>merged\<close> is the output
  array, \<open>current\<close> the section being extended. The final \<^verbatim>\<open>merged.push(current)\<close> is the
  base case.
\<close>

fun merge_loop :: "MusicSection list \<Rightarrow> MusicSection \<Rightarrow> MusicSection list \<Rightarrow> MusicSection list" where
  "merge_loop merged current [] = merged @ [current]"
| "merge_loop merged current (nxt # rest) =
     (if type nxt = type current
      then merge_loop merged
             (current\<lparr>endTime := endTime nxt, energy := (energy current + energy nxt) / 2\<rparr>) rest
      else merge_loop (merged @ [current]) nxt rest)"

definition mergeSections :: "MusicSection list \<Rightarrow> MusicSection list" where
  "mergeSections sections =
     (if length sections \<le> 1 then sections else merge_loop [] (hd sections) (tl sections))"

subsection \<open>snapToNearestBar\<close>

text \<open>
  The \<^verbatim>\<open>for ... of\<close> loop with its early \<^verbatim>\<open>break\<close>: the update of \<open>nearestBar\<close> comes before
  the test that leaves the loop.
\<close>

fun snap_loop :: "real \<Rightarrow> real list \<Rightarrow> real \<Rightarrow> real \<Rightarrow> real" where
  "snap_loop t [] nearestBar minDiff = nearestBar"
| "snap_loop t (barTime # rest) nearestBar minDiff =
     (let diff = \<bar>t - barTime\<bar>;
          minDiff' = (if diff < minDiff then diff else minDiff);
          nearestBar' = (if diff < minDiff then barTime else nearestBar)
      in if barTime > t + 2 then nearestBar' else snap_loop t rest nearestBar' minDiff')"

definition snapToNearestBar :: "real \<Rightarrow> real list \<Rightarrow> real" where
  "snapToNearestBar t barTimes =
     (if barTimes = [] then t
      else snap_loop t barTimes (hd barTimes) \<bar>t - hd barTimes\<bar>)"

subsection \<open>analyzeSections\<close>

text \<open>The loop over the energy changes; \<open>boundaries\<close> is never empty, it starts as \<open>[0]\<close>.\<close>

fun change_boundaries :: "real list \<Rightarrow> EnergyChange list \<Rightarrow> real list \<Rightarrow> real list" where
  "change_boundaries barTimes [] boundaries = boundaries"
| "change_boundaries barTimes (change # rest) boundaries =
     (let snappedTime = snapToNearestBar (time change) barTimes
      in if snappedTime - last boundaries \<ge> MIN_SECTION_DURATION
         then change_boundaries barTimes rest (boundaries @ [snappedTime])
         else change_boundaries barTimes rest boundaries)"

text \<open>Ending at the track duration.\<close>

definition end_boundaries :: "real list \<Rightarrow> real \<Rightarrow> real list" where
  "end_boundaries boundaries audioDuration =
     (if audioDuration - last boundaries \<ge> MIN_SECTION_DURATION then boundaries @ [audioDuration]
      else if length boundaries > 1 then boundaries[length boundaries - 1 := audioDuration]
      else boundaries @ [audioDuration])"

text \<open>
  The loop \<^verbatim>\<open>for (i = barsPerSection; i < barTimes.length; i += barsPerSection)\<close> that adds a
  boundary every eight bars. It reads \<open>boundaries[0]\<close> and \<open>boundaries[1]\<close>, which the pushes
  at the end of the array do not change.
\<close>

definition barsPerSection :: nat where
  "barsPerSection = 8"

function bar_boundaries :: "real list \<Rightarrow> nat \<Rightarrow> real list \<Rightarrow> real list" where
  "bar_boundaries barTimes i boundaries =
     (if i < length barTimes
      then (let barTime = barTimes ! i
            in if barTime > boundaries ! 0 + MIN_SECTION_DURATION \<and>
                  barTime < boundaries ! 1 - MIN_SECTION_DURATION
               then bar_boundaries barTimes (i + barsPerSection) (boundaries @ [barTime])
               else bar_boundaries barTimes (i + barsPerSection) boundaries)
      else boundaries)"
  by pat_completeness auto
termination
  by (relation "measure (\<lambda>(barTimes, i, boundaries). length barTimes - i)")
    (auto simp: barsPerSection_def)

declare bar_boundaries.simps [simp del]

text \<open>
  The body of the loop that creates the sections, for the index \<open>i\<close> with
  \<open>i + 1 < length boundaries\<close>. An average energy that is NaN (a boundary below 0) leaves
  the model.
\<close>

definition section_at :: "real list \<Rightarrow> real list \<Rightarrow> real \<Rightarrow> nat \<Rightarrow> MusicSection option" where
  "section_at energyCurve boundaries audioDuration i =
     (let start = boundaries ! i;
          stop = boundaries ! (i + 1)
      in case getAverageEnergy energyCurve start stop of
           None \<Rightarrow> None
         | Some e \<Rightarrow>
             (case (if i > 0 then getAverageEnergy energyCurve (boundaries ! (i - 1)) start
                    else Some e) of
                None \<Rightarrow> None
              | Some prevEnergy \<Rightarrow>
                  (let energyChange = e - prevEnergy
                   in Some \<lparr>type = classifySection e start stop audioDuration energyChange,
                            startTime = start, endTime = stop, energy = e\<rparr>)))"

definition analyzeSections :: "real list \<Rightarrow> real list \<Rightarrow> real \<Rightarrow> MusicSection list option" where
  "analyzeSections energyCurve barTimes audioDuration =
     (if energyCurve = []
      then Some [\<lparr>type = Unknown, startTime = 0, endTime = audioDuration, energy = 5 / 10\<rparr>]
      else (let energyChanges = detectEnergyChanges energyCurve (15 / 100);
                boundaries1 = change_boundaries barTimes energyChanges [0];
                boundaries2 = end_boundaries boundaries1 audioDuration;
                boundaries =
                  (if length boundaries2 = 2 \<and> barTimes \<noteq> []
                   then sort (bar_boundaries barTimes barsPerSection boundaries2)
                   else boundaries2)
            in map_option mergeSections
                 (those (map (section_at energyCurve boundaries audioDuration)
                           [0..<length boundaries - 1]))))"

section \<open>Beat worker\<close>

subsection \<open>Tempo and bar times\<close>

text \<open>
  \<^verbatim>\<open>analyzeBeatsEnhanced\<close> obtains the beat timestamps from the external beat tracker and
  then derives the tempo and the bar timestamps from them. These two blocks are pure; they
  are modelled as functions of \<open>beatTimes\<close>.
\<close>

definition tempo_of_beats :: "real list \<Rightarrow> real" where
  "tempo_of_beats beatTimes =
     (if length beatTimes \<ge> 2
      then (let intervals = map (\<lambda>i. beatTimes ! i - beatTimes ! (i - 1)) [1..<length beatTimes];
                avgInterval = sum_list intervals / real (length intervals)
            in 60 / avgInterval)
      else 120)"

text \<open>The loop \<^verbatim>\<open>for (i = 0; i < beatTimes.length; i += 4) barTimes.push(beatTimes[i])\<close>.\<close>

function bar_loop :: "real list \<Rightarrow> nat \<Rightarrow> real list \<Rightarrow> real list" where
  "bar_loop beatTimes i barTimes =
     (if i < length beatTimes then bar_loop beatTimes (i + 4) (barTimes @ [beatTimes ! i])
      else barTimes)"
  by pat_completeness auto
termination
  by (relation "measure (\<lambda>(beatTimes, i, barTimes). length beatTimes - i)") auto

definition barTimes_of_beats :: "real list \<Rightarrow> real list" where
  "barTimes_of_beats beatTimes = bar_loop beatTimes 0 []"

subsection \<open>calculateBeatStrengths\<close>

definition frameSize :: int where
  "frameSize = 2048"

definition halfFrame :: int where
  "halfFrame = frameSize div 2"

text \<open>The sample window of one beat: \<open>start\<close> and \<open>end\<close> of the source, after clamping.\<close>

definition beat_start :: "real list \<Rightarrow> real \<Rightarrow> real \<Rightarrow> int" where
  "beat_start audioData sampleRate beatTime =
     (let sampleIndex = \<lfloor>beatTime * sampleRate\<rfloor> in max 0 (sampleIndex - halfFrame))"

definition beat_end :: "real list \<Rightarrow> real \<Rightarrow> real \<Rightarrow> int" where
  "beat_end audioData sampleRate beatTime =
     (let sampleIndex = \<lfloor>beatTime * sampleRate\<rfloor>
      in min (int (length audioData)) (sampleIndex + halfFrame))"

text \<open>The divisor \<open>end - start\<close> of the RMS of one beat.\<close>

definition rms_divisor :: "real list \<Rightarrow> real \<Rightarrow> real \<Rightarrow> int" where
  "rms_divisor audioData sampleRate beatTime =
     beat_end audioData sampleRate beatTime - beat_start audioData sampleRate beatTime"

text \<open>
  The body of the \<^verbatim>\<open>map\<close> callback. The reads \<open>audioData[i]\<close> for \<open>start \<le> i < end\<close> are
  inside the array, since \<open>0 \<le> start\<close> and \<open>end \<le> length\<close>. Nothing guards the division:
  with an empty window that has \<open>end = start\<close> the source computes \<open>0 / 0\<close>, which is NaN,
  here \<open>None\<close>. With \<open>end < start\<close> the quotient is a zero and so is its root.
\<close>

definition rawStrength :: "real list \<Rightarrow> real \<Rightarrow> real \<Rightarrow> real option" where
  "rawStrength audioData sampleRate beatTime =
     (let start = beat_start audioData sampleRate beatTime;
          endIdx = beat_end audioData sampleRate beatTime;
          sumSquares = (\<Sum>i \<leftarrow> [start..endIdx - 1]. audioData ! nat i * audioData ! nat i)
      in if endIdx - start = 0 then None
         else Some (sqrt (sumSquares / real_of_int (endIdx - start))))"

text \<open>
  A NaN among the raw strengths makes \<^verbatim>\<open>Math.max\<close> NaN, and the normalisation then turns
  every strength into NaN: the result is \<open>None\<close>.
\<close>

definition calculateBeatStrengths :: "real list \<Rightarrow> real list \<Rightarrow> real \<Rightarrow> real list option" where
  "calculateBeatStrengths audioData beatTimes sampleRate =
     (let rawStrengths = map (rawStrength audioData sampleRate) beatTimes
      in if rawStrengths = [] then Some []
         else (case those rawStrengths of
                 None \<Rightarrow> None
               | Some raw \<Rightarrow>
                   (let maxStrength = Max (set raw)
                    in if maxStrength = 0 then Some (map (\<lambda>s. 0) raw)
                       else Some (map (\<lambda>s. s / maxStrength) raw))))"

section \<open>Properties of the energy utilities\<close>

text \<open>
  C10: an energy envelope of at most 20 samples (two seconds at 10 Hz) yields no
  energy-change event, whatever the threshold.
\<close>

theorem detectEnergyChanges_short:
  "length energyCurve \<le> 20 \<Longrightarrow> detectEnergyChanges energyCurve threshold = []"
  by (simp add: detectEnergyChanges_def lookWindow_def)

theorem detectEnergyChanges_short_witness:
  "length (replicate 20 (1::real)) \<le> 20 \<and> detectEnergyChanges (replicate 20 1) (1/5) = []"
  using detectEnergyChanges_short [of "replicate 20 1" "1/5"] by simp


lemma energy_sum_single: "energy_sum energyCurve [i] (Some 0) = f32_get energyCurve i"
  by (simp split: option.splits)

text \<open>
  C5, as stated, fails: between two grid points of the 10 Hz envelope the index range
  \<open>floor (10 t) .. ceil (10 t)\<close> holds one sample. For the one-sample envelope \<open>[1]\<close> and
  \<open>t = 0.05\<close> the average is 1.
\<close>

theorem getAverageEnergy_same_time_counterexample:
  "getAverageEnergy [1] (1/20) (1/20) \<noteq> Some 0"
  by code_simp

text \<open>
  C5, amended: \<open>getAverageEnergy env t t\<close> is 0 when \<open>10 t\<close> is an integer or the envelope
  has no sample at index \<open>floor (10 t)\<close> or beyond; otherwise it is the envelope's sample at
  index \<open>floor (10 t)\<close> (NaN, here \<open>None\<close>, when that index is negative).
\<close>

theorem getAverageEnergy_same_time_amended:
  "getAverageEnergy energyCurve t t =
     (if t * 10 \<in> \<int> \<or> int (length energyCurve) \<le> \<lfloor>t * 10\<rfloor> then Some 0
      else f32_get energyCurve \<lfloor>t * 10\<rfloor>)"
proof (cases "t * 10 \<in> \<int>")
  case True
  then have "\<lceil>t * 10\<rceil> = \<lfloor>t * 10\<rfloor>"
    by (auto simp add: ceiling_altdef Ints_def)
  then show ?thesis
    using True by (simp add: getAverageEnergy_def OUTPUT_SAMPLE_RATE_def Let_def)
next
  case False
  then have "t * 10 \<noteq> real_of_int \<lfloor>t * 10\<rfloor>"
    by (metis Ints_of_int)
  then have c: "\<lceil>t * 10\<rceil> = \<lfloor>t * 10\<rfloor> + 1"
    by (simp add: ceiling_altdef)
  show ?thesis
  proof (cases "int (length energyCurve) \<le> \<lfloor>t * 10\<rfloor>")
    case True
    then show ?thesis
      by (simp add: getAverageEnergy_def OUTPUT_SAMPLE_RATE_def Let_def)
  next
    case short: False
    then have m: "min \<lceil>t * 10\<rceil> (int (length energyCurve)) = \<lfloor>t * 10\<rfloor> + 1"
      using c by simp
    show ?thesis
      using False short
      by (simp add: getAverageEnergy_def OUTPUT_SAMPLE_RATE_def Let_def m energy_sum_single
          option.map_ident split: option.splits)
  qed
qed

theorem getAverageEnergy_same_time_amended_witness:
  "getAverageEnergy [1/2, 1] (1/10) (1/10) = Some 0 \<and>
   getAverageEnergy [1/2, 1] (3/20) (3/20) = Some 1 \<and>
   getAverageEnergy [1/2, 1] 7 7 = Some 0"
  using getAverageEnergy_same_time_amended [of "[1/2, 1]" "1/10"]
    getAverageEnergy_same_time_amended [of "[1/2, 1]" "3/20"]
    getAverageEnergy_same_time_amended [of "[1/2, 1]" 7]
  by (simp add: f32_get_def)

section \<open>Properties of the beat worker\<close>

text \<open>
  C6, as stated, fails in its second half: the bar loop visits the beat indices 0, 4 and 8,
  so nine beats give three bar timestamps, not two.
\<close>

theorem barTimes_nine_beats_counterexample:
  "barTimes_of_beats [0, 1/2, 1, 3/2, 2, 5/2, 3, 7/2, 4] \<noteq> [0, 2]"
  by code_simp

text \<open>
  C6, amended: for the nine beats 0, 0.5, ..., 4.0 the tempo is exactly 120 and the bar
  timestamps (the beats at indices 0, 4 and 8) are exactly \<open>[0, 2, 4]\<close>.
\<close>

theorem tempo_and_barTimes_nine_beats:
  "tempo_of_beats [0, 1/2, 1, 3/2, 2, 5/2, 3, 7/2, 4] = 120 \<and>
   barTimes_of_beats [0, 1/2, 1, 3/2, 2, 5/2, 3, 7/2, 4] = [0, 2, 4]"
  by code_simp

lemma rms_divisor_pos:
  assumes "audioData \<noteq> []"
    and "- halfFrame < \<lfloor>t * sampleRate\<rfloor>"
    and "\<lfloor>t * sampleRate\<rfloor> < int (length audioData) + halfFrame"
  shows "0 < rms_divisor audioData sampleRate t"
proof -
  have "- 1024 < \<lfloor>t * sampleRate\<rfloor>" "\<lfloor>t * sampleRate\<rfloor> < int (length audioData) + 1024" "0 < int (length audioData)"
    using assms by (simp_all add: halfFrame_def frameSize_def)
  then show ?thesis
    unfolding rms_divisor_def beat_start_def beat_end_def halfFrame_def frameSize_def Let_def
    by linarith
qed

lemma rms_divisor_beyond:
  assumes "int (length audioData) + halfFrame \<le> \<lfloor>t * sampleRate\<rfloor>"
  shows "rms_divisor audioData sampleRate t = int (length audioData) + halfFrame - \<lfloor>t * sampleRate\<rfloor>"
  using assms by (auto simp: rms_divisor_def beat_start_def beat_end_def halfFrame_def frameSize_def Let_def)

lemma those_map_Some:
  "(\<And>x. x \<in> set xs \<Longrightarrow> f x \<noteq> None) \<Longrightarrow> those (map f xs) = Some (map (\<lambda>x. the (f x)) xs)"
  by (induction xs) (auto split: option.splits)

lemma rawStrength_Some_iff:
  "rawStrength audioData sampleRate t \<noteq> None \<longleftrightarrow> rms_divisor audioData sampleRate t \<noteq> 0"
  by (simp add: rawStrength_def rms_divisor_def Let_def)

lemma calculateBeatStrengths_Some:
  assumes "\<And>t. t \<in> set beatTimes \<Longrightarrow> rms_divisor audioData sampleRate t \<noteq> 0"
  shows "calculateBeatStrengths audioData beatTimes sampleRate \<noteq> None"
proof -
  have "those (map (rawStrength audioData sampleRate) beatTimes) \<noteq> None"
    using assms by (subst those_map_Some) (simp_all add: rawStrength_Some_iff [symmetric])
  then show ?thesis
    by (auto simp: calculateBeatStrengths_def Let_def)
qed

text \<open>
  C9: the beat times are positions in the track, so that the sample index
  \<open>floor (t * sampleRate)\<close> of a beat is not negative. If the waveform is nonempty and every
  beat's sample index is below \<open>length + 1024\<close>, then the RMS divisor \<open>end - start\<close> is
  strictly positive for every beat and no strength is NaN. The clamping alone does not
  guard the division: for a sample index at or beyond \<open>length + 1024\<close> the divisor is
  \<open>length + 1024 - index\<close>, which is 0 at \<open>length + 1024\<close> and negative beyond.
\<close>

theorem rms_divisor_positive:
  "(audioData \<noteq> [] \<and>
    (\<forall>t \<in> set beatTimes. 0 \<le> \<lfloor>t * sampleRate\<rfloor> \<and>
                           \<lfloor>t * sampleRate\<rfloor> < int (length audioData) + 1024)
    \<longrightarrow> (\<forall>t \<in> set beatTimes. 0 < rms_divisor audioData sampleRate t) \<and>
        calculateBeatStrengths audioData beatTimes sampleRate \<noteq> None) \<and>
   (\<forall>t. int (length audioData) + 1024 \<le> \<lfloor>t * sampleRate\<rfloor>
      \<longrightarrow> rms_divisor audioData sampleRate t = int (length audioData) + 1024 - \<lfloor>t * sampleRate\<rfloor>)"
proof (intro conjI impI allI)
  assume a: "audioData \<noteq> [] \<and>
    (\<forall>t \<in> set beatTimes. 0 \<le> \<lfloor>t * sampleRate\<rfloor> \<and>
                           \<lfloor>t * sampleRate\<rfloor> < int (length audioData) + 1024)"
  have pos: "0 < rms_divisor audioData sampleRate t" if "t \<in> set beatTimes" for t
  proof (rule rms_divisor_pos)
    show "audioData \<noteq> []"
      using a by (rule conjunct1)
    have "0 \<le> \<lfloor>t * sampleRate\<rfloor> \<and> \<lfloor>t * sampleRate\<rfloor> < int (length audioData) + 1024"
      using a that by blast
    then show "- halfFrame < \<lfloor>t * sampleRate\<rfloor>"
      and "\<lfloor>t * sampleRate\<rfloor> < int (length audioData) + halfFrame"
      by (simp_all add: halfFrame_def frameSize_def)
  qed
  then show "\<forall>t \<in> set beatTimes. 0 < rms_divisor audioData sampleRate t"
    by blast
  show "calculateBeatStrengths audioData beatTimes sampleRate \<noteq> None"
    using pos by (intro calculateBeatStrengths_Some) fastforce
next
  fix t
  assume "int (length audioData) + 1024 \<le> \<lfloor>t * sampleRate\<rfloor>"
  then show "rms_divisor audioData sampleRate t = int (length audioData) + 1024 - \<lfloor>t * sampleRate\<rfloor>"
    using rms_divisor_beyond [of audioData t sampleRate]
    by (simp add: halfFrame_def frameSize_def)
qed

theorem rms_divisor_positive_witness:
  "[1, 1::real] \<noteq> [] \<and>
   0 \<le> \<lfloor>0 * (1::real)\<rfloor> \<and> \<lfloor>0 * (1::real)\<rfloor> < int (length [1, 1::real]) + 1024 \<and>
   0 \<le> \<lfloor>1 * (1::real)\<rfloor> \<and> \<lfloor>1 * (1::real)\<rfloor> < int (length [1, 1::real]) + 1024 \<and>
   0 < rms_divisor [1, 1] 1 0 \<and> 0 < rms_divisor [1, 1] 1 1 \<and>
   calculateBeatStrengths [1, 1] [0, 1] 1 \<noteq> None \<and>
   int (length [1, 1::real]) + 1024 \<le> \<lfloor>1026 * (1::real)\<rfloor> \<and>
   rms_divisor [1, 1] 1 1026 = 0"
  using rms_divisor_positive [of "[1, 1]" "[0, 1]" 1]
  by simp

section \<open>Properties of the energy envelope\<close>

subsection \<open>Rounding\<close>

lemma rounding_nonneg: "rounding r \<Longrightarrow> 0 \<le> x \<Longrightarrow> 0 \<le> r x"
  unfolding rounding_def mono_def by (metis (full_types))




lemma rounding_id: "rounding (\<lambda>x. x)"
  by (simp add: rounding_def mono_def)

lemma rounding_floor: "rounding (\<lambda>x. real_of_int \<lfloor>x\<rfloor>)"
  by (simp add: rounding_def mono_def floor_mono)

subsection \<open>The window energies\<close>





subsection \<open>Smoothing\<close>

lemma length_smoothEnergyCurve [simp]:
  "length (smoothEnergyCurve fround rnd curve windowSize) = length curve"
  by (simp add: smoothEnergyCurve_def Let_def)





subsection \<open>Normalisation\<close>







subsection \<open>The envelope\<close>

lemma outputLength_nonneg:
  assumes "rounding rnd" "0 < sampleRate"
  shows "0 \<le> \<lceil>rnd (rnd (real (length audioData) / sampleRate) * 10)\<rceil>"
proof -
  have "0 \<le> real (length audioData) / sampleRate"
    using assms(2) by simp
  then have "0 \<le> rnd (real (length audioData) / sampleRate)"
    by (rule rounding_nonneg [OF assms(1)])
  then have "0 \<le> rnd (real (length audioData) / sampleRate) * 10"
    by simp
  then have "0 \<le> rnd (rnd (real (length audioData) / sampleRate) * 10)"
    by (rule rounding_nonneg [OF assms(1)])
  then show ?thesis
    by (simp add: ceiling_le_iff order_less_le_trans)
qed


lemma analyzeEnergy_positive_rate:
  assumes "rounding rnd" "0 < sampleRate"
    and "\<not> int maxLength < \<lceil>rnd (rnd (real (length audioData) / sampleRate) * 10)\<rceil>"
  shows "analyzeEnergy fround rnd maxLength audioData sampleRate =
     Inr (let rawEnergy =
                map (\<lambda>i. fround (calculateRMS rnd audioData (int i * \<lfloor>rnd (sampleRate / 10)\<rfloor>)
                      (min (int i * \<lfloor>rnd (sampleRate / 10)\<rfloor> + \<lfloor>rnd (sampleRate / 10)\<rfloor>)
                         (int (length audioData)))))
                  [0..<nat \<lceil>rnd (rnd (real (length audioData) / sampleRate) * 10)\<rceil>];
              smoothed = smoothEnergyCurve fround rnd rawEnergy 5;
              maxEnergy = max_energy smoothed
          in if maxEnergy > 0 then map (\<lambda>s. fround (rnd (s / maxEnergy))) smoothed
             else replicate (length smoothed) 0)"
proof -
  have "\<not> \<lceil>rnd (rnd (real (length audioData) / sampleRate) * 10)\<rceil> < 0"
    using outputLength_nonneg [OF assms(1,2), of audioData] by linarith
  then show ?thesis
    using assms(2,3) by (simp add: analyzeEnergy_def OUTPUT_SAMPLE_RATE_def Let_def)
qed




text \<open>
  The same happens at a sample rate that is a multiple of 10 when a stored value rounds to
  0, as a small enough value does in single precision. With a rounding that is this coarse
  already below 1, the one-sample waveform \<open>[1/2]\<close> at 10 Hz has the envelope \<open>[0]\<close>.
\<close>

lemma analyzeEnergy_coarse_rounding:
  "rounding (\<lambda>x. real_of_int \<lfloor>x\<rfloor>) \<and>
   analyzeEnergy (\<lambda>x. real_of_int \<lfloor>x\<rfloor>) (\<lambda>x. x) 4294967295 [1/2] 10 = Inr [0]"
proof -
  have "sqrt (1 / 4) < 1" "0 \<le> sqrt (1 / 4)"
    by (simp_all add: real_sqrt_lt_1_iff)
  then have "\<lfloor>sqrt (1 / 4)\<rfloor> = 0"
    by (simp add: floor_eq_iff)
  then show ?thesis
    by (simp add: rounding_floor analyzeEnergy_positive_rate [OF rounding_id] Let_def
        calculateRMS_def f32_get_def upto.simps smoothEnergyCurve_def max_energy_def)
qed



section \<open>Properties of the section list\<close>

subsection \<open>Merging\<close>

lemma merge_loop_append:
  "merge_loop merged current rest = merged @ merge_loop [] current rest"
proof (induction rest arbitrary: merged current)
  case Nil
  show ?case by simp
next
  case (Cons nxt rest)
  show ?case
  proof (cases "type nxt = type current")
    case True
    then show ?thesis
      using Cons.IH [of merged] by simp
  next
    case False
    then show ?thesis
      using Cons.IH [of "merged @ [current]" nxt] Cons.IH [of "[current]" nxt] by simp
  qed
qed

lemma merge_loop_differ:
  "type nxt \<noteq> type current \<Longrightarrow>
   merge_loop [] current (nxt # rest) = current # merge_loop [] nxt rest"
  using merge_loop_append [of "[current]" nxt rest] by simp

lemma merge_loop_same:
  "type nxt = type current \<Longrightarrow>
   merge_loop [] current (nxt # rest) =
   merge_loop [] (current\<lparr>endTime := endTime nxt, energy := (energy current + energy nxt) / 2\<rparr>) rest"
  by simp

lemma merge_loop_hd:
  "merge_loop [] current rest \<noteq> [] \<and>
   startTime (hd (merge_loop [] current rest)) = startTime current \<and>
   type (hd (merge_loop [] current rest)) = type current"
proof (induction rest arbitrary: current)
  case Nil
  show ?case by simp
next
  case (Cons nxt rest)
  show ?case
  proof (cases "type nxt = type current")
    case True
    then show ?thesis
      using Cons.IH [of "current\<lparr>endTime := endTime nxt, energy := (energy current + energy nxt) / 2\<rparr>"]
      by simp
  next
    case False
    then have "merge_loop [] current (nxt # rest) = current # merge_loop [] nxt rest"
      by (rule merge_loop_differ)
    then show ?thesis
      by simp
  qed
qed

lemma merge_loop_last:
  "endTime (last (merge_loop [] current rest)) = endTime (last (current # rest))"
proof (induction rest arbitrary: current)
  case Nil
  show ?case by simp
next
  case (Cons nxt rest)
  show ?case
  proof (cases "type nxt = type current")
    case True
    then show ?thesis
      using Cons.IH [of "current\<lparr>endTime := endTime nxt, energy := (energy current + energy nxt) / 2\<rparr>"]
      by simp
  next
    case False
    then have "merge_loop [] current (nxt # rest) = current # merge_loop [] nxt rest"
      by (rule merge_loop_differ)
    then show ?thesis
      using Cons.IH [of nxt] merge_loop_hd [of nxt rest] by simp
  qed
qed

lemma merge_loop_contiguous:
  "successively (\<lambda>a b. endTime a = startTime b) (current # rest) \<Longrightarrow>
   successively (\<lambda>a b. endTime a = startTime b) (merge_loop [] current rest)"
proof (induction rest arbitrary: current)
  case Nil
  show ?case by simp
next
  case (Cons nxt rest)
  show ?case
  proof (cases "type nxt = type current")
    case True
    let ?c = "current\<lparr>endTime := endTime nxt, energy := (energy current + energy nxt) / 2\<rparr>"
    have "successively (\<lambda>a b. endTime a = startTime b) (?c # rest)"
      using Cons.prems by (cases rest) auto
    then show ?thesis
      using True Cons.IH [of ?c] by simp
  next
    case False
    then have eq: "merge_loop [] current (nxt # rest) = current # merge_loop [] nxt rest"
      by (rule merge_loop_differ)
    have "successively (\<lambda>a b. endTime a = startTime b) (nxt # rest)" "endTime current = startTime nxt"
      using Cons.prems by auto
    then show ?thesis
      unfolding eq using Cons.IH [of nxt] merge_loop_hd [of nxt rest]
      by (simp add: successively_Cons)
  qed
qed

lemma merge_loop_types:
  "successively (\<lambda>a b. type a \<noteq> type b) (merge_loop [] current rest)"
proof (induction rest arbitrary: current)
  case Nil
  show ?case by simp
next
  case (Cons nxt rest)
  show ?case
  proof (cases "type nxt = type current")
    case True
    then show ?thesis
      using Cons.IH by simp
  next
    case False
    then have eq: "merge_loop [] current (nxt # rest) = current # merge_loop [] nxt rest"
      by (rule merge_loop_differ)
    show ?thesis
      unfolding eq using False Cons.IH [of nxt] merge_loop_hd [of nxt rest]
      by (auto simp add: successively_Cons)
  qed
qed

lemma mergeSections_invariants:
  assumes "sections \<noteq> []"
    and "successively (\<lambda>a b. endTime a = startTime b) sections"
  shows "mergeSections sections \<noteq> []"
    and "startTime (hd (mergeSections sections)) = startTime (hd sections)"
    and "endTime (last (mergeSections sections)) = endTime (last sections)"
    and "successively (\<lambda>a b. endTime a = startTime b) (mergeSections sections)"
    and "successively (\<lambda>a b. type a \<noteq> type b) (mergeSections sections)"
proof -
  obtain s rest where sections: "sections = s # rest"
    using assms(1) by (cases sections) auto
  show "mergeSections sections \<noteq> []"
    using merge_loop_hd [of s rest] by (simp add: mergeSections_def sections)
  show "startTime (hd (mergeSections sections)) = startTime (hd sections)"
    using merge_loop_hd [of s rest] by (simp add: mergeSections_def sections)
  show "endTime (last (mergeSections sections)) = endTime (last sections)"
    using merge_loop_last [of s rest] by (simp add: mergeSections_def sections)
  show "successively (\<lambda>a b. endTime a = startTime b) (mergeSections sections)"
    using merge_loop_contiguous [of s rest] assms(2) by (simp add: mergeSections_def sections)
  show "successively (\<lambda>a b. type a \<noteq> type b) (mergeSections sections)"
    using merge_loop_types [of s rest] by (cases rest) (simp_all add: mergeSections_def sections)
qed


subsection \<open>Average energy inside the envelope\<close>

lemma energy_sum_in_range:
  assumes "\<forall>i \<in> set is. 0 \<le> i \<and> i < int (length energyCurve)"
  shows "energy_sum energyCurve is (Some s) \<noteq> None"
  using assms
proof (induction "is" arbitrary: s)
  case Nil
  show ?case by simp
next
  case (Cons i rest)
  then obtain v where "f32_get energyCurve i = Some v"
    by (auto simp: f32_get_def)
  then show ?case
    using Cons by simp
qed

lemma getAverageEnergy_defined:
  assumes "0 \<le> start"
  shows "getAverageEnergy energyCurve start stop \<noteq> None"
proof -
  define startIndex where "startIndex = \<lfloor>start * 10\<rfloor>"
  define endIndex where "endIndex = min \<lceil>stop * 10\<rceil> (int (length energyCurve))"
  have "0 \<le> startIndex"
    using assms by (simp add: startIndex_def)
  moreover have "endIndex \<le> int (length energyCurve)"
    by (simp add: endIndex_def)
  ultimately have "\<forall>i \<in> set [startIndex..endIndex - 1]. 0 \<le> i \<and> i < int (length energyCurve)"
    by auto
  then have "energy_sum energyCurve [startIndex..endIndex - 1] (Some 0) \<noteq> None"
    by (rule energy_sum_in_range)
  then show ?thesis
    by (auto simp add: getAverageEnergy_def OUTPUT_SAMPLE_RATE_def Let_def
        startIndex_def endIndex_def)
qed

subsection \<open>Sections from boundaries\<close>

lemma section_at_defined:
  assumes "\<forall>x \<in> set boundaries. 0 \<le> x" "i + 1 < length boundaries"
  shows "\<exists>s. section_at energyCurve boundaries audioDuration i = Some s \<and>
             startTime s = boundaries ! i \<and> endTime s = boundaries ! (i + 1)"
proof -
  have nonneg: "0 \<le> boundaries ! j" if "j < length boundaries" for j
    using assms(1) that by simp
  obtain e where e: "getAverageEnergy energyCurve (boundaries ! i) (boundaries ! (i + 1)) = Some e"
    using getAverageEnergy_defined [OF nonneg [of i]] assms(2) by fastforce
  obtain p where p: "getAverageEnergy energyCurve (boundaries ! (i - 1)) (boundaries ! i) = Some p"
    using getAverageEnergy_defined [OF nonneg [of "i - 1"]] assms(2) by fastforce
  show ?thesis
    using e p by (simp add: section_at_def Let_def)
qed

lemma successively_map_upt:
  assumes "\<And>i. Suc i < n \<Longrightarrow> P (f i) (f (Suc i))"
  shows "successively P (map f [0..<n])"
  using assms
proof (induction n)
  case 0
  show ?case by simp
next
  case (Suc n)
  then have "successively P (map f [0..<n])"
    by simp
  moreover have "P (f (n - 1)) (f n)" if "0 < n"
    using Suc.prems [of "n - 1"] that by simp
  ultimately show ?case
    by (cases "n = 0") (simp_all add: successively_append_iff last_map)
qed

lemma sections_of_boundaries:
  fixes boundaries :: "real list"
  assumes "\<forall>x \<in> set boundaries. 0 \<le> x" "2 \<le> length boundaries"
  shows "\<exists>sections.
    those (map (section_at energyCurve boundaries audioDuration) [0..<length boundaries - 1])
      = Some sections \<and>
    sections \<noteq> [] \<and>
    startTime (hd sections) = hd boundaries \<and>
    endTime (last sections) = last boundaries \<and>
    successively (\<lambda>a b. endTime a = startTime b) sections"
proof -
  let ?n = "length boundaries - 1"
  let ?f = "\<lambda>i. the (section_at energyCurve boundaries audioDuration i)"
  let ?sections = "map ?f [0..<?n]"
  have at: "startTime (?f i) = boundaries ! i \<and> endTime (?f i) = boundaries ! (i + 1)
      \<and> section_at energyCurve boundaries audioDuration i \<noteq> None"
    if "i < ?n" for i
  proof -
    have "i + 1 < length boundaries"
      using that by simp
    from section_at_defined [OF assms(1) this, of energyCurve audioDuration]
    show ?thesis
      by auto
  qed
  have "those (map (section_at energyCurve boundaries audioDuration) [0..<?n]) = Some ?sections"
    using at by (intro those_map_Some) simp
  moreover have "?sections \<noteq> []"
    using assms(2) by simp
  moreover have "startTime (hd ?sections) = hd boundaries"
  proof -
    have "boundaries \<noteq> []" "0 < length boundaries - 1"
      using assms(2) by auto
    then show ?thesis
      using at [of 0] by (simp add: hd_map hd_conv_nth upt_rec [of 0])
  qed
  moreover have "endTime (last ?sections) = last boundaries"
  proof -
    have idx: "?n - 1 < ?n" "?n - 1 + 1 = length boundaries - 1" and ne: "boundaries \<noteq> []"
      using assms(2) by auto
    have "last ?sections = ?f (?n - 1)"
      using assms(2) by (simp add: last_map last_upt del: upt_Suc)
    then have "endTime (last ?sections) = boundaries ! (?n - 1 + 1)"
      using at [OF idx(1)] by simp
    also have "\<dots> = last boundaries"
      using last_conv_nth [OF ne] idx(2) by simp
    finally show ?thesis .
  qed
  moreover have "successively (\<lambda>a b. endTime a = startTime b) ?sections"
    using at by (intro successively_map_upt) simp
  ultimately show ?thesis
    by blast
qed


subsection \<open>Boundaries\<close>

lemma change_boundaries_invariant:
  assumes "boundaries \<noteq> []" "hd boundaries = 0" "\<forall>x \<in> set boundaries. 0 \<le> x"
  shows "change_boundaries barTimes changes boundaries \<noteq> [] \<and>
         hd (change_boundaries barTimes changes boundaries) = 0 \<and>
         (\<forall>x \<in> set (change_boundaries barTimes changes boundaries). 0 \<le> x)"
  using assms
proof (induction changes arbitrary: boundaries)
  case Nil
  then show ?case by simp
next
  case (Cons change rest)
  let ?snapped = "snapToNearestBar (time change) barTimes"
  show ?case
  proof (cases "?snapped - last boundaries \<ge> MIN_SECTION_DURATION")
    case True
    have "0 \<le> last boundaries"
      using Cons.prems by simp
    then have "0 \<le> ?snapped"
      using True by (simp add: MIN_SECTION_DURATION_def)
    then have "boundaries @ [?snapped] \<noteq> []" "hd (boundaries @ [?snapped]) = 0"
      "\<forall>x \<in> set (boundaries @ [?snapped]). 0 \<le> x"
      using Cons.prems by auto
    from Cons.IH [OF this] show ?thesis
      using True by (simp add: Let_def)
  next
    case False
    then show ?thesis
      using Cons.IH [OF Cons.prems] by (simp add: Let_def)
  qed
qed

lemma end_boundaries_invariant:
  assumes "boundaries \<noteq> []" "hd boundaries = 0" "\<forall>x \<in> set boundaries. 0 \<le> x"
    and "0 \<le> audioDuration"
  shows "2 \<le> length (end_boundaries boundaries audioDuration) \<and>
         hd (end_boundaries boundaries audioDuration) = 0 \<and>
         last (end_boundaries boundaries audioDuration) = audioDuration \<and>
         (\<forall>x \<in> set (end_boundaries boundaries audioDuration). 0 \<le> x)"
proof (cases "audioDuration - last boundaries \<ge> MIN_SECTION_DURATION \<or> \<not> length boundaries > 1")
  case True
  then have "end_boundaries boundaries audioDuration = boundaries @ [audioDuration]"
    by (auto simp: end_boundaries_def)
  then show ?thesis
    using assms by (cases boundaries) auto
next
  case False
  let ?updated = "boundaries[length boundaries - 1 := audioDuration]"
  from False have eq: "end_boundaries boundaries audioDuration = ?updated"
    by (auto simp: end_boundaries_def)
  from False have len2: "2 \<le> length boundaries"
    by simp
  have "set ?updated \<subseteq> insert audioDuration (set boundaries)"
    by (rule set_update_subset_insert)
  then have nonneg: "\<forall>x \<in> set ?updated. 0 \<le> x"
    using assms(3,4) by auto
  have len: "2 \<le> length ?updated"
    using len2 by (simp only: length_list_update)
  then have ne: "?updated \<noteq> []"
    by auto
  have "last ?updated = ?updated ! (length ?updated - 1)"
    using ne by (rule last_conv_nth)
  also have "\<dots> = audioDuration"
    using assms(1) by (simp add: nth_list_update_eq)
  finally have last: "last ?updated = audioDuration" .
  have "length boundaries - 1 \<noteq> 0"
    using len2 by simp
  then have "?updated ! 0 = boundaries ! 0"
    by (rule nth_list_update_neq)
  then have hd: "hd ?updated = 0"
    using hd_conv_nth [OF assms(1)] hd_conv_nth [OF ne] assms(2) by simp
  show ?thesis
    unfolding eq using len hd last nonneg by (intro conjI)
qed


lemma bar_boundaries_stop:
  "\<not> i < length barTimes \<Longrightarrow> bar_boundaries barTimes i boundaries = boundaries"
  by (subst bar_boundaries.simps) simp

lemma bar_boundaries_push:
  "i < length barTimes \<Longrightarrow>
   barTimes ! i > boundaries ! 0 + MIN_SECTION_DURATION \<and>
   barTimes ! i < boundaries ! 1 - MIN_SECTION_DURATION \<Longrightarrow>
   bar_boundaries barTimes i boundaries =
   bar_boundaries barTimes (i + barsPerSection) (boundaries @ [barTimes ! i])"
  by (subst bar_boundaries.simps) (simp add: Let_def)

lemma bar_boundaries_skip:
  "i < length barTimes \<Longrightarrow>
   \<not> (barTimes ! i > boundaries ! 0 + MIN_SECTION_DURATION \<and>
      barTimes ! i < boundaries ! 1 - MIN_SECTION_DURATION) \<Longrightarrow>
   bar_boundaries barTimes i boundaries =
   bar_boundaries barTimes (i + barsPerSection) boundaries"
  by (subst bar_boundaries.simps) (auto simp add: Let_def)


lemma bar_boundaries_appends:
  assumes "2 \<le> length boundaries"
  shows "\<exists>added. bar_boundaries barTimes i boundaries = boundaries @ added \<and>
     (\<forall>x \<in> set added. boundaries ! 0 + MIN_SECTION_DURATION < x \<and>
                       x < boundaries ! 1 - MIN_SECTION_DURATION)"
  using assms
proof (induction barTimes i boundaries rule: bar_boundaries.induct)
  case (1 barTimes i boundaries)
  let ?inside = "\<lambda>x. boundaries ! 0 + MIN_SECTION_DURATION < x \<and>
                     x < boundaries ! 1 - MIN_SECTION_DURATION"
  show ?case
  proof (cases "i < length barTimes")
    case False
    then have "bar_boundaries barTimes i boundaries = boundaries @ []"
      by (simp add: bar_boundaries_stop)
    moreover have "\<forall>x \<in> set []. ?inside x"
      by simp
    ultimately show ?thesis
      by (intro exI [of _ "[]"] conjI)
  next
    case True
    let ?barTime = "barTimes ! i"
    show ?thesis
    proof (cases "?inside ?barTime")
      case inside: True
      have len: "2 \<le> length (boundaries @ [?barTime])"
        using "1.prems" by simp
      have "0 < length boundaries" "1 < length boundaries"
        using "1.prems" by auto
      then have nth: "(boundaries @ [?barTime]) ! 0 = boundaries ! 0"
        "(boundaries @ [?barTime]) ! 1 = boundaries ! 1"
        by (simp_all only: nth_append if_True)
      from "1.IH"(1) [OF True refl inside len] obtain added
        where added: "bar_boundaries barTimes (i + barsPerSection) (boundaries @ [?barTime]) =
            (boundaries @ [?barTime]) @ added \<and> (\<forall>x \<in> set added. ?inside x)"
        unfolding nth ..
      have "bar_boundaries barTimes i boundaries = boundaries @ (?barTime # added)"
        using bar_boundaries_push [OF True inside] added by simp
      moreover have "\<forall>x \<in> set (?barTime # added). ?inside x"
        using inside added by simp
      ultimately show ?thesis
        by (intro exI [of _ "?barTime # added"] conjI)
    next
      case outside: False
      from "1.IH"(2) [OF True refl outside "1.prems"] obtain added
        where added: "bar_boundaries barTimes (i + barsPerSection) boundaries = boundaries @ added
          \<and> (\<forall>x \<in> set added. ?inside x)" ..
      have "bar_boundaries barTimes i boundaries = boundaries @ added"
        using bar_boundaries_skip [OF True outside] added by simp
      then show ?thesis
        using added by (intro exI [of _ added] conjI) simp_all
    qed
  qed
qed


lemma sorted_hd_le:
  "sorted xs \<Longrightarrow> x \<in> set xs \<Longrightarrow> hd xs \<le> (x::real)"
  by (cases xs) auto

lemma sorted_le_last:
  "sorted xs \<Longrightarrow> x \<in> set xs \<Longrightarrow> (x::real) \<le> last xs"
proof (induction xs)
  case (Cons y ys)
  then show ?case
    by (cases ys) auto
qed simp

lemma sorted_bounds:
  fixes xs :: "real list"
  assumes "sorted xs" "lo \<in> set xs" "hi \<in> set xs" "\<forall>x \<in> set xs. lo \<le> x \<and> x \<le> hi"
  shows "hd xs = lo" and "last xs = hi"
proof -
  have ne: "xs \<noteq> []"
    using assms(2) by auto
  have "hd xs \<le> lo"
    using assms(1,2) by (rule sorted_hd_le)
  moreover have "lo \<le> hd xs"
    using assms(4) ne by simp
  ultimately show "hd xs = lo"
    by simp
  have "hi \<le> last xs"
    using assms(1,3) by (rule sorted_le_last)
  moreover have "last xs \<le> hi"
    using assms(4) ne by simp
  ultimately show "last xs = hi"
    by simp
qed

lemma fallback_boundaries_invariant:
  assumes "0 \<le> audioDuration"
  shows "2 \<le> length (sort (bar_boundaries barTimes i [0, audioDuration])) \<and>
         hd (sort (bar_boundaries barTimes i [0, audioDuration])) = 0 \<and>
         last (sort (bar_boundaries barTimes i [0, audioDuration])) = audioDuration \<and>
         (\<forall>x \<in> set (sort (bar_boundaries barTimes i [0, audioDuration])). 0 \<le> x)"
proof -
  let ?raw = "bar_boundaries barTimes i [0, audioDuration]"
  have "2 \<le> length [0, audioDuration]"
    by simp
  from bar_boundaries_appends [OF this, of barTimes i] obtain added
    where added: "?raw = [0, audioDuration] @ added \<and>
      (\<forall>x \<in> set added. [0, audioDuration] ! 0 + MIN_SECTION_DURATION < x \<and>
                        x < [0, audioDuration] ! 1 - MIN_SECTION_DURATION)" ..
  then have inside: "\<forall>x \<in> set added. 0 \<le> x \<and> x \<le> audioDuration"
    by (auto simp: MIN_SECTION_DURATION_def)
  have "set ?raw = {0, audioDuration} \<union> set added"
    using added by simp
  then have set: "set (sort ?raw) = {0, audioDuration} \<union> set added"
    by (simp only: set_sort)
  have range: "\<forall>x \<in> set (sort ?raw). 0 \<le> x \<and> x \<le> audioDuration"
    unfolding set using inside assms by auto
  have "sorted (sort ?raw)" "0 \<in> set (sort ?raw)" "audioDuration \<in> set (sort ?raw)"
    unfolding set by simp_all
  from sorted_bounds [OF this range]
  have "hd (sort ?raw) = 0" "last (sort ?raw) = audioDuration" .
  moreover have "length ?raw = 2 + length added"
    using added by simp
  then have "2 \<le> length (sort ?raw)"
    by (simp only: length_sort)
  ultimately show ?thesis
    using range by simp
qed

lemma analyzeSections_boundaries:
  assumes "0 \<le> audioDuration"
  shows "let boundaries2 = end_boundaries (change_boundaries barTimes changes [0]) audioDuration;
             boundaries = (if length boundaries2 = 2 \<and> barTimes \<noteq> []
                           then sort (bar_boundaries barTimes barsPerSection boundaries2)
                           else boundaries2)
         in 2 \<le> length boundaries \<and> hd boundaries = 0 \<and> last boundaries = audioDuration \<and>
            (\<forall>x \<in> set boundaries. 0 \<le> x)"
proof -
  define boundaries2
    where "boundaries2 = end_boundaries (change_boundaries barTimes changes [0]) audioDuration"
  define boundaries
    where "boundaries = (if length boundaries2 = 2 \<and> barTimes \<noteq> []
                           then sort (bar_boundaries barTimes barsPerSection boundaries2)
                           else boundaries2)"
  have "change_boundaries barTimes changes [0] \<noteq> [] \<and>
      hd (change_boundaries barTimes changes [0]) = 0 \<and>
      (\<forall>x \<in> set (change_boundaries barTimes changes [0]). 0 \<le> x)"
    by (rule change_boundaries_invariant) simp_all
  then have b2: "2 \<le> length boundaries2 \<and> hd boundaries2 = 0 \<and>
      last boundaries2 = audioDuration \<and> (\<forall>x \<in> set boundaries2. 0 \<le> x)"
    unfolding boundaries2_def using assms(1) by (intro end_boundaries_invariant) simp_all
  have "2 \<le> length boundaries \<and> hd boundaries = 0 \<and> last boundaries = audioDuration \<and>
            (\<forall>x \<in> set boundaries. 0 \<le> x)"
  proof (cases "length boundaries2 = 2 \<and> barTimes \<noteq> []")
    case False
    then have "boundaries = boundaries2"
      unfolding boundaries_def by (rule if_not_P)
    then show ?thesis
      using b2 by simp
  next
    case True
    then obtain x y where xy: "boundaries2 = [x, y]"
      by (cases boundaries2; cases "tl boundaries2") auto
    then have "boundaries2 = [0, audioDuration]"
      using b2 by simp
    moreover have "boundaries = sort (bar_boundaries barTimes barsPerSection boundaries2)"
      using True unfolding boundaries_def by (rule if_P)
    ultimately have "boundaries = sort (bar_boundaries barTimes barsPerSection [0, audioDuration])"
      by simp
    then show ?thesis
      using fallback_boundaries_invariant [OF assms(1), of barTimes barsPerSection] by simp
  qed
  then show ?thesis
    unfolding Let_def boundaries_def boundaries2_def .
qed


text \<open>
  C1: for every energy envelope, bar-timestamp list and positive duration,
  \<^verbatim>\<open>analyzeSections\<close> returns a nonempty section list whose first section starts at 0,
  in which every section ends where the next one starts, whose last section ends at the
  duration, and in which no two adjacent sections have the same type.
\<close>

theorem analyzeSections_invariants:
  "0 < audioDuration \<Longrightarrow>
   \<exists>sections. analyzeSections energyCurve barTimes audioDuration = Some sections \<and>
     sections \<noteq> [] \<and>
     startTime (hd sections) = 0 \<and>
     successively (\<lambda>a b. endTime a = startTime b) sections \<and>
     endTime (last sections) = audioDuration \<and>
     successively (\<lambda>a b. type a \<noteq> type b) sections"
proof (cases "energyCurve = []")
  case True
  then show ?thesis
    by (simp add: analyzeSections_def)
next
  case False
  assume "0 < audioDuration"
  then have duration: "0 \<le> audioDuration"
    by simp
  define boundaries2 where "boundaries2 =
    end_boundaries (change_boundaries barTimes (detectEnergyChanges energyCurve (15 / 100)) [0])
      audioDuration"
  define boundaries where "boundaries =
    (if length boundaries2 = 2 \<and> barTimes \<noteq> []
     then sort (bar_boundaries barTimes barsPerSection boundaries2) else boundaries2)"
  have b: "2 \<le> length boundaries \<and> hd boundaries = 0 \<and> last boundaries = audioDuration \<and>
      (\<forall>x \<in> set boundaries. 0 \<le> x)"
    using analyzeSections_boundaries [OF duration, of barTimes "detectEnergyChanges energyCurve (15 / 100)"]
    unfolding Let_def boundaries_def boundaries2_def .
  then have "\<forall>x \<in> set boundaries. 0 \<le> x" "2 \<le> length boundaries"
    by simp_all
  from sections_of_boundaries [OF this, of energyCurve audioDuration] obtain raw
    where raw: "those (map (section_at energyCurve boundaries audioDuration)
        [0..<length boundaries - 1]) = Some raw"
      "raw \<noteq> []" "startTime (hd raw) = hd boundaries" "endTime (last raw) = last boundaries"
      "successively (\<lambda>a b. endTime a = startTime b) raw"
    by blast
  have "analyzeSections energyCurve barTimes audioDuration =
      map_option mergeSections
        (those (map (section_at energyCurve boundaries audioDuration)
                  [0..<length boundaries - 1]))"
    unfolding analyzeSections_def Let_def boundaries_def boundaries2_def
    using False by (rule if_not_P)
  then have result: "analyzeSections energyCurve barTimes audioDuration = Some (mergeSections raw)"
    by (simp only: raw(1) option.map)
  note merged = mergeSections_invariants [OF raw(2) raw(5)]
  show ?thesis
  proof (intro exI conjI)
    show "analyzeSections energyCurve barTimes audioDuration = Some (mergeSections raw)"
      by (rule result)
    show "mergeSections raw \<noteq> []"
      by (rule merged(1))
    show "startTime (hd (mergeSections raw)) = 0"
      using merged(2) raw(3) b by simp
    show "successively (\<lambda>a b. endTime a = startTime b) (mergeSections raw)"
      by (rule merged(4))
    show "endTime (last (mergeSections raw)) = audioDuration"
      using merged(3) raw(4) b by simp
    show "successively (\<lambda>a b. type a \<noteq> type b) (mergeSections raw)"
      by (rule merged(5))
  qed
qed

lemma analyzeSections_step_envelope:
  "analyzeSections (replicate 50 0 @ replicate 50 1) [] 10 =
     Some [\<lparr>type = Intro, startTime = 0, endTime = 21 / 5, energy = 0\<rparr>,
           \<lparr>type = Drop, startTime = 21 / 5, endTime = 10, energy = 25 / 29\<rparr>]"
  by code_simp

subsection \<open>A constant envelope\<close>

lemma detect_loop_constant:
  assumes "0 < threshold" "\<forall>i \<in> set is. lookWindow \<le> i \<and> i + lookWindow \<le> n"
  shows "detect_loop (replicate n c) threshold is changes = changes"
  using assms(2)
proof (induction "is")
  case Nil
  show ?case by simp
next
  case (Cons i rest)
  then have i: "lookWindow \<le> i" "i + lookWindow \<le> n"
    by simp_all
  have "map (\<lambda>j. replicate n c ! (i - lookWindow + j)) [0..<lookWindow] =
      map (\<lambda>j. c) [0..<lookWindow]"
    using i by (intro map_cong refl nth_replicate) auto
  then have before: "(\<Sum>j \<leftarrow> [0..<lookWindow]. replicate n c ! (i - lookWindow + j)) =
      (\<Sum>j \<leftarrow> [0..<lookWindow]. c)"
    by (simp only:)
  have "map (\<lambda>j. replicate n c ! (i + j)) [0..<lookWindow] = map (\<lambda>j. c) [0..<lookWindow]"
    using i by (intro map_cong refl nth_replicate) auto
  then have after: "(\<Sum>j \<leftarrow> [0..<lookWindow]. replicate n c ! (i + j)) =
      (\<Sum>j \<leftarrow> [0..<lookWindow]. c)"
    by (simp only:)
  have "detect_loop (replicate n c) threshold (i # rest) changes =
      detect_loop (replicate n c) threshold rest changes"
    using assms(1) by (simp only: detect_loop.simps Let_def before after) simp
  then show ?case
    using Cons by simp
qed

lemma detectEnergyChanges_constant:
  "0 < threshold \<Longrightarrow> detectEnergyChanges (replicate n c) threshold = []"
  unfolding detectEnergyChanges_def by (rule detect_loop_constant) auto

lemma energy_sum_replicate:
  assumes "0 \<le> a" "b < int n" "k = nat (b + 1 - a)" "a \<le> b + 1"
  shows "energy_sum (replicate n c) [a..b] (Some s) = Some (s + real k * c)"
  using assms
proof (induction k arbitrary: a s)
  case 0
  then have "[a..b] = []"
    by simp
  then show ?case
    by simp
next
  case (Suc k)
  then have "a \<le> b"
    by simp
  then have "[a..b] = a # [a + 1..b]"
    by (rule upto_rec1)
  moreover have "f32_get (replicate n c) a = Some c"
    using Suc.prems \<open>a \<le> b\<close> by (simp add: f32_get_def)
  moreover have "energy_sum (replicate n c) [a + 1..b] (Some (s + c)) = Some (s + c + real k * c)"
    using Suc.prems by (intro Suc.IH) auto
  ultimately show ?case
    by (simp add: algebra_simps)
qed

lemma getAverageEnergy_constant:
  assumes "0 < n" "0 < stop"
  shows "getAverageEnergy (replicate n c) 0 stop = Some c"
proof -
  define endIndex where "endIndex = min \<lceil>stop * 10\<rceil> (int n)"
  have pos: "0 < endIndex"
    using assms by (simp add: endIndex_def)
  have "energy_sum (replicate n c) [0..endIndex - 1] (Some 0) =
      Some (0 + real (nat (endIndex - 1 + 1 - 0)) * c)"
    using pos by (intro energy_sum_replicate) (auto simp: endIndex_def)
  then have "energy_sum (replicate n c) [0..endIndex - 1] (Some 0) = Some (real_of_int endIndex * c)"
    using pos by simp
  then show ?thesis
    using pos by (simp add: getAverageEnergy_def OUTPUT_SAMPLE_RATE_def Let_def endIndex_def [symmetric])
qed

lemma constant_half_envelope_sections:
  assumes "0 < n"
  shows "analyzeSections (replicate n (1 / 2)) [] 240 =
     Some [\<lparr>type = Intro, startTime = 0, endTime = 240, energy = 1 / 2\<rparr>]"
proof -
  have "replicate n (1 / 2 :: real) \<noteq> []"
    using assms by simp
  moreover have "detectEnergyChanges (replicate n (1 / 2)) (15 / 100) = []"
    by (rule detectEnergyChanges_constant) simp
  moreover have "end_boundaries [0] 240 = [0, 240]"
    by (simp add: end_boundaries_def MIN_SECTION_DURATION_def)
  moreover have "section_at (replicate n (1 / 2)) [0, 240] 240 0 =
      Some \<lparr>type = Intro, startTime = 0, endTime = 240, energy = 1 / 2\<rparr>"
    using getAverageEnergy_constant [OF assms, of 240 "1 / 2"]
    by (simp add: section_at_def classifySection_def EDGE_SECTION_THRESHOLD_def
        ENERGY_THRESHOLDS_HIGH_def)
  ultimately show ?thesis
    by (simp add: analyzeSections_def Let_def mergeSections_def)
qed

theorem analyzeSections_invariants_witness:
  "(0::real) < 10 \<and>
   analyzeSections (replicate 50 0 @ replicate 50 1) [] 10 =
     Some [\<lparr>type = Intro, startTime = 0, endTime = 21 / 5, energy = 0\<rparr>,
           \<lparr>type = Drop, startTime = 21 / 5, endTime = 10, energy = 25 / 29\<rparr>] \<and>
   (\<exists>sections. analyzeSections (replicate 50 0 @ replicate 50 1) [] 10 = Some sections \<and>
      startTime (hd sections) = 0 \<and> endTime (last sections) = 10)"
proof -
  have pos: "(0::real) < 10"
    by simp
  from analyzeSections_invariants [OF pos, of "replicate 50 0 @ replicate 50 1" "[]"]
  have "\<exists>sections. analyzeSections (replicate 50 0 @ replicate 50 1) [] 10 = Some sections \<and>
      startTime (hd sections) = 0 \<and> endTime (last sections) = 10"
    by blast
  then show ?thesis
    using pos analyzeSections_step_envelope by (intro conjI)
qed

text \<open>
  C2, as stated, fails: the first rule of \<^verbatim>\<open>classifySection\<close> makes every section that
  starts in the first 15 seconds with an energy below 0.7 an intro, so the single section
  of the constant-0.5 envelope is not a verse.
\<close>

theorem analyzeSections_constant_counterexample:
  "analyzeSections (replicate 2400 (1 / 2)) [] 240 \<noteq>
     Some [\<lparr>type = Verse, startTime = 0, endTime = 240, energy = 1 / 2\<rparr>]"
proof -
  have eq: "analyzeSections (replicate 2400 (1 / 2)) [] 240 =
      Some [\<lparr>type = Intro, startTime = 0, endTime = 240, energy = 1 / 2\<rparr>]"
    by (rule constant_half_envelope_sections) simp
  show ?thesis
    unfolding eq by simp
qed

text \<open>
  C2, amended: for a 240-second track whose energy envelope is constant 0.5 (of any
  positive length, 2400 samples at 10 Hz) and whose bar list is empty, \<^verbatim>\<open>analyzeSections\<close>
  returns exactly one section, with type intro, start 0, end 240 and energy 0.5.
\<close>

theorem analyzeSections_constant:
  "0 < n \<Longrightarrow>
   analyzeSections (replicate n (1 / 2)) [] 240 =
     Some [\<lparr>type = Intro, startTime = 0, endTime = 240, energy = 1 / 2\<rparr>]"
  by (rule constant_half_envelope_sections)

theorem analyzeSections_constant_witness:
  "0 < (2400::nat) \<and>
   analyzeSections (replicate 2400 (1 / 2)) [] 240 =
     Some [\<lparr>type = Intro, startTime = 0, endTime = 240, energy = 1 / 2\<rparr>]"
proof -
  have pos: "0 < (2400::nat)"
    by simp
  from pos analyzeSections_constant [OF pos] show ?thesis
    by (rule conjI)
qed

section \<open>Properties of the magnitude spectrum\<close>



lemma power_passes_check:
  "(word_of_nat (2 ^ k) AND (word_of_nat (2 ^ k) - 1) :: 32 word) = 0"
proof -
  have "(2 ^ k - 1 :: 32 word) = mask k"
    by (simp add: mask_eq_exp_minus_1)
  moreover have "(2 ^ k AND mask k :: 32 word) = 0"
    by (rule bit_eqI) (auto simp: bit_simps)
  ultimately show ?thesis
    by simp
qed



lemma computeMagnitudeSpectrum_power:
  assumes "length samples = 2 ^ k"
  shows "\<exists>spectrum. computeMagnitudeSpectrum samples = Inr spectrum \<and>
           length spectrum = length samples div 2"
proof -
  have "(word_of_nat (length samples) AND (word_of_nat (length samples) - 1) :: 32 word) = 0"
    unfolding assms by (rule power_passes_check)
  then show ?thesis
    by (simp add: computeMagnitudeSpectrum_def Let_def split_beta)
qed


text \<open>
  The empty frame passes the test, \<open>0 & (0 - 1)\<close> being 0, and gives the empty spectrum.
  \<^verbatim>\<open>analyzeDrums\<close>, the only caller, passes frames of \<^verbatim>\<open>FFT_SIZE\<close> samples, never an empty
  one.
\<close>

lemma computeMagnitudeSpectrum_Nil:
  "computeMagnitudeSpectrum [] = Inr []"
  by (simp add: computeMagnitudeSpectrum_def Let_def split_beta)




section \<open>Properties of the drum analysis\<close>

lemma length_applyWindow [simp]: "length (applyWindow samples window) = length samples"
  by (simp add: applyWindow_def)

lemma length_slice: "stop \<le> length a \<Longrightarrow> length (slice a start stop) = stop - start"
  by (auto simp: slice_def)

lemma frames_loop_total:
  assumes "\<forall>frame \<in> set frames. frame * HOP_SIZE + FFT_SIZE \<le> length audioData"
  shows "\<exists>out. frames_loop audioData sampleRate window frames arrays = Inr out \<and>
           length (frameTimes out) = length (frameTimes arrays) + length frames \<and>
           length (kickEnergy out) = length (kickEnergy arrays) + length frames \<and>
           length (snareEnergy out) = length (snareEnergy arrays) + length frames \<and>
           length (hihatEnergy out) = length (hihatEnergy arrays) + length frames"
  using assms
proof (induction frames arbitrary: arrays)
  case Nil
  show ?case by simp
next
  case (Cons frame rest)
  let ?windowed = "applyWindow (slice audioData (frame * HOP_SIZE) (frame * HOP_SIZE + FFT_SIZE)) window"
  have "length ?windowed = 2 ^ 11"
    using Cons.prems by (simp add: length_slice FFT_SIZE_def)
  then obtain spectrum where spectrum: "computeMagnitudeSpectrum ?windowed = Inr spectrum"
    using computeMagnitudeSpectrum_power by blast
  let ?next = "\<lparr>kickEnergy = kickEnergy arrays @ [getBandEnergy spectrum sampleRate (fst FREQUENCY_BANDS_kick) (snd FREQUENCY_BANDS_kick)],
      snareEnergy = snareEnergy arrays @ [getBandEnergy spectrum sampleRate (fst FREQUENCY_BANDS_snare) (snd FREQUENCY_BANDS_snare)],
      hihatEnergy = hihatEnergy arrays @ [getBandEnergy spectrum sampleRate (fst FREQUENCY_BANDS_hihat) (snd FREQUENCY_BANDS_hihat)],
      frameTimes = frameTimes arrays @
        [(real (frame * HOP_SIZE) + real FFT_SIZE / 2) / sampleRate]\<rparr>"
  have step: "frames_loop audioData sampleRate window (frame # rest) arrays =
      frames_loop audioData sampleRate window rest ?next"
    using spectrum by (simp add: Let_def)
  have "\<forall>frame \<in> set rest. frame * HOP_SIZE + FFT_SIZE \<le> length audioData"
    using Cons.prems by simp
  from Cons.IH [OF this, of ?next] show ?case
    unfolding step by simp
qed

lemma onset_loop_spaced:
  assumes "successively (\<lambda>s t. t - s \<ge> minInterval) onsets"
  shows "successively (\<lambda>s t. t - s \<ge> minInterval)
           (onset_loop bandEnergy ts threshold minInterval is onsets)"
  using assms
proof (induction "is" arbitrary: onsets)
  case Nil
  then show ?case by simp
next
  case (Cons i rest)
  have "successively (\<lambda>s t. t - s \<ge> minInterval) (onsets @ [ts ! i])"
    if "onsets = [] \<or> ts ! i - last onsets \<ge> minInterval"
    using that Cons.prems by (auto simp: successively_append_iff)
  then show ?case
    using Cons by (simp add: Let_def)
qed

lemma detectOnsets_spaced:
  "successively (\<lambda>s t. t - s \<ge> minInterval) (detectOnsets bandEnergy ts threshold minInterval)"
  unfolding detectOnsets_def by (rule onset_loop_spaced) simp

lemma spaced_increasing:
  assumes "successively (\<lambda>s t. t - s \<ge> d) xs" "0 < d"
  shows "sorted_wrt (<) (xs :: real list)"
proof -
  have "successively (<) xs"
    using assms(1) by (rule successively_mono) (use assms(2) in simp)
  then show ?thesis
    by (simp add: successively_conv_sorted_wrt)
qed

lemma detectOnsets_increasing:
  "0 < minInterval \<Longrightarrow> sorted_wrt (<) (detectOnsets bandEnergy ts threshold minInterval)"
  using detectOnsets_spaced by (rule spaced_increasing)

lemma numFrames_pos_iff: "0 < (int n - 2048) div 512 \<longleftrightarrow> 2560 \<le> n"
proof -
  have "0 < (int n - 2048) div 512 \<longleftrightarrow> 512 \<le> int n - 2048"
    by (rule pos_imp_zdiv_pos_iff) simp
  then show ?thesis
    by auto
qed

lemma frame_inside:
  assumes "int frame < (int n - 2048) div 512"
  shows "frame * 512 + 2048 \<le> n"
proof -
  define q where "q = (int n - 2048) div 512"
  have "int n - 2048 = 512 * q + (int n - 2048) mod 512"
    unfolding q_def by (simp only: mult_div_mod_eq)
  moreover have "0 \<le> (int n - 2048) mod 512"
    by simp
  moreover have "int frame + 1 \<le> q"
    using assms by (simp add: q_def)
  ultimately have "int frame * 512 + 2048 \<le> int n"
    by linarith
  then show ?thesis
    by (metis (mono_tags) of_nat_add of_nat_le_iff of_nat_mult of_nat_numeral)
qed

lemma analyzeDrums_short:
  assumes "length audioData < 2560"
  shows "analyzeDrums audioData sampleRate beatTimes =
     Inr \<lparr>kickTimes = [], snareTimes = [], hihatTimes = [], patternLength = 0\<rparr>"
proof -
  have "(int (length audioData) - int FFT_SIZE) div int HOP_SIZE \<le> 0"
    using assms numFrames_pos_iff [of "length audioData"]
    by (simp add: FFT_SIZE_def HOP_SIZE_def)
  then show ?thesis
    unfolding analyzeDrums_def Let_def by (rule if_P)
qed


lemma analyzeDrums_frames:
  assumes "2560 \<le> length audioData"
  shows "\<exists>arrays :: FrameArrays.
    analyzeDrums audioData sampleRate beatTimes =
      Inr \<lparr>kickTimes = detectOnsets (kickEnergy arrays) (frameTimes arrays)
               ONSET_THRESHOLDS_kick MIN_HIT_INTERVAL_kick,
           snareTimes = detectOnsets (snareEnergy arrays) (frameTimes arrays)
               ONSET_THRESHOLDS_snare MIN_HIT_INTERVAL_snare,
           hihatTimes = detectOnsets (hihatEnergy arrays) (frameTimes arrays)
               ONSET_THRESHOLDS_hihat MIN_HIT_INTERVAL_hihat,
           patternLength =
             (if length beatTimes \<ge> 2
              then (beatTimes ! (length beatTimes - 1) - beatTimes ! 0) /
                   real (length beatTimes - 1) * 16
              else 0)\<rparr> \<and>
    length (frameTimes arrays) = length (kickEnergy arrays) \<and>
    length (frameTimes arrays) = length (snareEnergy arrays) \<and>
    length (frameTimes arrays) = length (hihatEnergy arrays)"
proof -
  define numFrames where "numFrames = (int (length audioData) - int FFT_SIZE) div int HOP_SIZE"
  have numFrames: "numFrames = (int (length audioData) - 2048) div 512"
    by (simp add: numFrames_def FFT_SIZE_def HOP_SIZE_def)
  have pos: "\<not> numFrames \<le> 0"
    using assms numFrames_pos_iff [of "length audioData"] by (simp add: numFrames)
  have "frame * HOP_SIZE + FFT_SIZE \<le> length audioData" if "frame < nat numFrames" for frame
  proof -
    have "int frame < (int (length audioData) - 2048) div 512"
      using that by (simp add: numFrames)
    then have "frame * 512 + 2048 \<le> length audioData"
      by (rule frame_inside)
    then show ?thesis
      by (simp add: FFT_SIZE_def HOP_SIZE_def)
  qed
  then have "\<forall>frame \<in> set [0..<nat numFrames]. frame * HOP_SIZE + FFT_SIZE \<le> length audioData"
    by simp
  from frames_loop_total [OF this, of sampleRate "createHammingWindow FFT_SIZE"
      "\<lparr>kickEnergy = [], snareEnergy = [], hihatEnergy = [], frameTimes = []\<rparr>"]
  obtain arrays where loop:
    "frames_loop audioData sampleRate (createHammingWindow FFT_SIZE) [0..<nat numFrames]
       \<lparr>kickEnergy = [], snareEnergy = [], hihatEnergy = [], frameTimes = []\<rparr> = Inr arrays"
    and lengths: "length (frameTimes arrays) = length (kickEnergy arrays) \<and>
      length (frameTimes arrays) = length (snareEnergy arrays) \<and>
      length (frameTimes arrays) = length (hihatEnergy arrays)"
    by (elim exE conjE) simp
  have "analyzeDrums audioData sampleRate beatTimes =
      (case frames_loop audioData sampleRate (createHammingWindow FFT_SIZE) [0..<nat numFrames]
              \<lparr>kickEnergy = [], snareEnergy = [], hihatEnergy = [], frameTimes = []\<rparr> of
         Inl e \<Rightarrow> Inl e
       | Inr arrays \<Rightarrow>
           Inr \<lparr>kickTimes = detectOnsets (kickEnergy arrays) (frameTimes arrays)
               ONSET_THRESHOLDS_kick MIN_HIT_INTERVAL_kick,
                snareTimes = detectOnsets (snareEnergy arrays) (frameTimes arrays)
               ONSET_THRESHOLDS_snare MIN_HIT_INTERVAL_snare,
                hihatTimes = detectOnsets (hihatEnergy arrays) (frameTimes arrays)
               ONSET_THRESHOLDS_hihat MIN_HIT_INTERVAL_hihat,
                patternLength =
                  (if length beatTimes \<ge> 2
                   then (beatTimes ! (length beatTimes - 1) - beatTimes ! 0) /
                        real (length beatTimes - 1) * 16
                   else 0)\<rparr>)"
    unfolding analyzeDrums_def Let_def numFrames_def [symmetric]
    using pos by (rule if_not_P)
  then have "analyzeDrums audioData sampleRate beatTimes =
      Inr \<lparr>kickTimes = detectOnsets (kickEnergy arrays) (frameTimes arrays)
               ONSET_THRESHOLDS_kick MIN_HIT_INTERVAL_kick,
           snareTimes = detectOnsets (snareEnergy arrays) (frameTimes arrays)
               ONSET_THRESHOLDS_snare MIN_HIT_INTERVAL_snare,
           hihatTimes = detectOnsets (hihatEnergy arrays) (frameTimes arrays)
               ONSET_THRESHOLDS_hihat MIN_HIT_INTERVAL_hihat,
           patternLength =
             (if length beatTimes \<ge> 2
              then (beatTimes ! (length beatTimes - 1) - beatTimes ! 0) /
                   real (length beatTimes - 1) * 16
              else 0)\<rparr>"
    by (simp only: loop sum.case)
  from conjI [OF this lengths] show ?thesis
    by (rule exI [where x = arrays])
qed


lemma detectOnsets_example:
  "detectOnsets (map Some [1, 1, 1, 1, 1, 1, 1, 1, 1, 1, 3, 1, 9, 27, 1, 1])
     [0, 1/10, 2/10, 3/10, 4/10, 5/10, 6/10, 7/10, 8/10, 9/10, 1, 11/10, 12/10, 13/10, 14/10, 15/10]
     2 (15 / 100) = [1, 12 / 10]"
  by code_simp

text \<open>
  C4: for every waveform, sample rate and beat list \<^verbatim>\<open>analyzeDrums\<close> returns a pattern (the
  transform never fails on its frames) in which each of the three onset arrays is strictly
  increasing and has consecutive timestamps at least the band's minimum spacing apart:
  0.15 s for kicks, 0.12 s for snares, 0.05 s for hi-hats.
\<close>

theorem analyzeDrums_onsets_spaced:
  "\<exists>pattern. analyzeDrums audioData sampleRate beatTimes = Inr pattern \<and>
     sorted_wrt (<) (kickTimes pattern) \<and>
     successively (\<lambda>s t. t - s \<ge> 15 / 100) (kickTimes pattern) \<and>
     sorted_wrt (<) (snareTimes pattern) \<and>
     successively (\<lambda>s t. t - s \<ge> 12 / 100) (snareTimes pattern) \<and>
     sorted_wrt (<) (hihatTimes pattern) \<and>
     successively (\<lambda>s t. t - s \<ge> 5 / 100) (hihatTimes pattern)"
proof -
  have "\<exists>pattern. analyzeDrums audioData sampleRate beatTimes = Inr pattern \<and>
     sorted_wrt (<) (kickTimes pattern) \<and>
     successively (\<lambda>s t. t - s \<ge> MIN_HIT_INTERVAL_kick) (kickTimes pattern) \<and>
     sorted_wrt (<) (snareTimes pattern) \<and>
     successively (\<lambda>s t. t - s \<ge> MIN_HIT_INTERVAL_snare) (snareTimes pattern) \<and>
     sorted_wrt (<) (hihatTimes pattern) \<and>
     successively (\<lambda>s t. t - s \<ge> MIN_HIT_INTERVAL_hihat) (hihatTimes pattern)"
  proof (cases "length audioData < 2560")
    case True
    then have "analyzeDrums audioData sampleRate beatTimes =
        Inr \<lparr>kickTimes = [], snareTimes = [], hihatTimes = [], patternLength = 0\<rparr>"
      by (rule analyzeDrums_short)
    then show ?thesis
      by simp
  next
    case False
    then have "2560 \<le> length audioData"
      by simp
    from analyzeDrums_frames [OF this, of sampleRate beatTimes] obtain arrays :: FrameArrays
      where result: "analyzeDrums audioData sampleRate beatTimes =
        Inr \<lparr>kickTimes = detectOnsets (kickEnergy arrays) (frameTimes arrays)
               ONSET_THRESHOLDS_kick MIN_HIT_INTERVAL_kick,
             snareTimes = detectOnsets (snareEnergy arrays) (frameTimes arrays)
               ONSET_THRESHOLDS_snare MIN_HIT_INTERVAL_snare,
             hihatTimes = detectOnsets (hihatEnergy arrays) (frameTimes arrays)
               ONSET_THRESHOLDS_hihat MIN_HIT_INTERVAL_hihat,
             patternLength =
               (if length beatTimes \<ge> 2
                then (beatTimes ! (length beatTimes - 1) - beatTimes ! 0) /
                     real (length beatTimes - 1) * 16
                else 0)\<rparr>"
      by (elim exE conjE)
    have inc: "sorted_wrt (<) (detectOnsets e ts threshold MIN_HIT_INTERVAL_kick)"
      "sorted_wrt (<) (detectOnsets e ts threshold MIN_HIT_INTERVAL_snare)"
      "sorted_wrt (<) (detectOnsets e ts threshold MIN_HIT_INTERVAL_hihat)" for e ts threshold
      by (rule detectOnsets_increasing,
          simp add: MIN_HIT_INTERVAL_kick_def MIN_HIT_INTERVAL_snare_def MIN_HIT_INTERVAL_hihat_def)+
    show ?thesis
      unfolding result by (rule exI, intro conjI, rule refl) (simp_all add: inc detectOnsets_spaced)
  qed
  then show ?thesis
    unfolding MIN_HIT_INTERVAL_kick_def MIN_HIT_INTERVAL_snare_def MIN_HIT_INTERVAL_hihat_def .
qed

lemma sum_consecutive_differences:
  fixes b :: "real list"
  shows "(\<Sum>i \<leftarrow> [1..<Suc n]. b ! i - b ! (i - 1)) = b ! n - b ! 0"
  by (induction n) simp_all

lemma mean_beat_interval_eq:
  assumes "2 \<le> length beatTimes"
  shows "mean_beat_interval beatTimes =
    (beatTimes ! (length beatTimes - 1) - beatTimes ! 0) / real (length beatTimes - 1)"
proof -
  obtain n where n: "length beatTimes = Suc n"
    using assms by (cases "length beatTimes") simp_all
  show ?thesis
    unfolding mean_beat_interval_def n using sum_consecutive_differences [of beatTimes n]
    by simp
qed

text \<open>
  C8, as stated, fails: a waveform of exactly one frame (2048 samples) is not shorter than
  a frame, but \<open>floor ((2048 - 2048) / 512)\<close> is 0, so \<^verbatim>\<open>analyzeDrums\<close> returns early with
  pattern length 0 although two beats with mean interval 1 are supplied.
\<close>

theorem analyzeDrums_patternLength_counterexample:
  "\<not> length (replicate 2048 (0::real)) < 2048 \<and> 2 \<le> length [0, 1::real] \<and>
   analyzeDrums (replicate 2048 0) 44100 [0, 1] =
     Inr \<lparr>kickTimes = [], snareTimes = [], hihatTimes = [], patternLength = 0\<rparr> \<and>
   mean_beat_interval [0, 1] * 16 = 16"
proof -
  have "analyzeDrums (replicate 2048 0) 44100 [0, 1] =
     Inr \<lparr>kickTimes = [], snareTimes = [], hihatTimes = [], patternLength = 0\<rparr>"
    by (rule analyzeDrums_short) simp
  moreover have "mean_beat_interval [0, 1] * 16 = 16"
    by (simp add: mean_beat_interval_def)
  ultimately show ?thesis
    by simp
qed

text \<open>
  C8, amended: \<^verbatim>\<open>analyzeDrums\<close> always returns a pattern. For a waveform of fewer than 2560
  samples (one frame and one hop, where the frame count \<open>floor ((length - 2048) / 512)\<close> is
  not positive) the three onset arrays are empty and the pattern length is 0, whatever the
  beats; the early return comes before any frame is transformed. For a longer waveform the
  pattern length is 16 times the mean inter-beat interval when at least two beat
  timestamps are supplied, and 0 otherwise.
\<close>

theorem analyzeDrums_patternLength:
  "\<exists>pattern. analyzeDrums audioData sampleRate beatTimes = Inr pattern \<and>
     (if length audioData < 2560
      then pattern = \<lparr>kickTimes = [], snareTimes = [], hihatTimes = [], patternLength = 0\<rparr>
      else patternLength pattern =
             (if 2 \<le> length beatTimes then mean_beat_interval beatTimes * 16 else 0))"
proof (cases "length audioData < 2560")
  case True
  then have "analyzeDrums audioData sampleRate beatTimes =
      Inr \<lparr>kickTimes = [], snareTimes = [], hihatTimes = [], patternLength = 0\<rparr>"
    by (rule analyzeDrums_short)
  then show ?thesis
    using True by simp
next
  case False
  then have "2560 \<le> length audioData"
    by simp
  from analyzeDrums_frames [OF this, of sampleRate beatTimes] obtain arrays :: FrameArrays
    where result: "analyzeDrums audioData sampleRate beatTimes =
      Inr \<lparr>kickTimes = detectOnsets (kickEnergy arrays) (frameTimes arrays)
               ONSET_THRESHOLDS_kick MIN_HIT_INTERVAL_kick,
           snareTimes = detectOnsets (snareEnergy arrays) (frameTimes arrays)
               ONSET_THRESHOLDS_snare MIN_HIT_INTERVAL_snare,
           hihatTimes = detectOnsets (hihatEnergy arrays) (frameTimes arrays)
               ONSET_THRESHOLDS_hihat MIN_HIT_INTERVAL_hihat,
           patternLength =
             (if length beatTimes \<ge> 2
              then (beatTimes ! (length beatTimes - 1) - beatTimes ! 0) /
                   real (length beatTimes - 1) * 16
              else 0)\<rparr>"
    by (elim exE conjE)
  show ?thesis
    unfolding result using False by (simp add: mean_beat_interval_eq)
qed

theorem analyzeDrums_patternLength_witness:
  "analyzeDrums (replicate 2047 0) 44100 [0, 1/2, 1] =
     Inr \<lparr>kickTimes = [], snareTimes = [], hihatTimes = [], patternLength = 0\<rparr> \<and>
   (\<exists>pattern. analyzeDrums (replicate 2560 0) 44100 [0, 1/2, 1] = Inr pattern \<and>
      patternLength pattern = 8)"
proof -
  from analyzeDrums_patternLength [of "replicate 2047 0" 44100 "[0, 1/2, 1]"]
  have "analyzeDrums (replicate 2047 0) 44100 [0, 1/2, 1] =
     Inr \<lparr>kickTimes = [], snareTimes = [], hihatTimes = [], patternLength = 0\<rparr>"
    by auto
  moreover have "mean_beat_interval [0, 1/2, 1] * 16 = 8"
    by (simp add: mean_beat_interval_def upt_rec)
  with analyzeDrums_patternLength [of "replicate 2560 0" 44100 "[0, 1/2, 1]"]
  have "\<exists>pattern. analyzeDrums (replicate 2560 0) 44100 [0, 1/2, 1] = Inr pattern \<and>
      patternLength pattern = 8"
    by auto
  ultimately show ?thesis
    by (rule conjI)
qed

end
